theory Spec2Isabelle
  imports
    Main
    "HOL-Library.Sublist"
    "HOL-Library.Char_ord"
    "HOL-Library.List_Lexorder"
begin

section \<open>Credential and configuration files of python-bugzilla\<close>

text \<open>
  A shallow embedding of \<^verbatim>\<open>bugzilla/_authfiles.py\<close>: the host identifier of a URL, the
  default location of a credential file, the \<^verbatim>\<open>bugzillarc\<close> reader, the token cache, the
  API key writer and the cookie cache.

  Python strings are \<^typ>\<open>string\<close>, \<^verbatim>\<open>None\<close>-or-a-value is \<^typ>\<open>'a option\<close>, an exception
  is the \<open>Inl\<close> of a sum. An object that a method mutates is passed in and returned. The
  file system is an explicit value that every operation touching a file takes and returns,
  also when it raises.
\<close>

subsection \<open>Exceptions\<close>

datatype error =
    AttributeError              \<comment> \<open>a method called on \<^verbatim>\<open>None\<close>\<close>
  | BugzillaError string        \<comment> \<open>raised by \<^verbatim>\<open>_build_cookiejar\<close>\<close>
  | LoadError                   \<comment> \<open>the cookie jar's format error\<close>
  | ParsingError                \<comment> \<open>the sectioned parser's format error\<close>
  | NoSectionError
  | NoOptionError
  | DuplicateSectionError
  | IsADirectoryError
  | FileExistsError
  | FileNotFoundError
  | NotADirectoryError
  | ValueError                  \<comment> \<open>the sectioned parser rejects a name or a value\<close>

type_synonym 'a result = "error + 'a"

subsection \<open>URL splitting\<close>

record ParseResult =
  scheme :: string
  netloc :: string
  path :: string
  params :: string
  query :: string
  fragment :: string

definition scheme_chars :: string where
  "scheme_chars =
     ''abcdefghijklmnopqrstuvwxyzABCDEFGHIJKLMNOPQRSTUVWXYZ0123456789+-.''"

definition uses_params :: "string list" where
  "uses_params = ['''', ''ftp'', ''hdl'', ''prospero'', ''http'', ''imap'', ''https'',
     ''shttp'', ''rtsp'', ''rtsps'', ''rtspu'', ''sip'', ''sips'', ''mms'', ''sftp'', ''tel'']"

definition isalpha :: "char \<Rightarrow> bool" where
  "isalpha c = (c \<in> set (take 52 scheme_chars))"

definition lower_char :: "char \<Rightarrow> char" where
  "lower_char c =
     (if c \<in> set ''ABCDEFGHIJKLMNOPQRSTUVWXYZ''
      then char_of (of_char c + (32::nat)) else c)"

text \<open>\<^verbatim>\<open>s.split(c, 1)\<close> for a string known to hold \<open>c\<close>, and \<^verbatim>\<open>s[:s.find(c)]\<close>.\<close>

definition before :: "char \<Rightarrow> string \<Rightarrow> string" where
  "before c s = takeWhile (\<lambda>x. x \<noteq> c) s"

definition after :: "char \<Rightarrow> string \<Rightarrow> string" where
  "after c s = drop 1 (dropWhile (\<lambda>x. x \<noteq> c) s)"

definition splitnetloc :: "string \<Rightarrow> string \<times> string" where
  "splitnetloc url =
     (takeWhile (\<lambda>x. x \<notin> set ''/?#'') url, dropWhile (\<lambda>x. x \<notin> set ''/?#'') url)"

definition splitparams :: "string \<Rightarrow> string \<times> string" where
  "splitparams url =
     (if CHR ''/'' \<in> set url then
        (let tail = rev (takeWhile (\<lambda>x. x \<noteq> CHR ''/'') (rev url));
             head = take (length url - length tail) url
         in if CHR '';'' \<notin> set tail then (url, '''')
            else (head @ before CHR '';'' tail, after CHR '';'' tail))
      else (before CHR '';'' url, after CHR '';'' url))"

text \<open>
  Modelled from the spec: \<^verbatim>\<open>urlparse\<close> is imported from \<^verbatim>\<open>_compatimports\<close>, which is not
  among the sources; it is the URL parser of the Python standard library. The spec's
  HostMatcher says that a URL is parsed as a URI with a network-location component and a
  raw path component, and the comment in \<^verbatim>\<open>_parse_hostname\<close> gives the two cases
  \<^verbatim>\<open>http://example.com\<close> (netloc \<^verbatim>\<open>example.com\<close>, empty path) and \<^verbatim>\<open>example.com\<close> (empty
  netloc, path \<^verbatim>\<open>example.com\<close>). The model follows the library's splitting steps: a leading
  scheme up to the first colon, a network location after \<^verbatim>\<open>//\<close> up to the first of
  \<^verbatim>\<open>/ ? #\<close>, then fragment, query and parameters. The library's removal of leading control
  characters and its validation of bracketed hosts are not part of the model.
\<close>

definition urlsplit :: "string \<Rightarrow> string \<times> string \<times> string \<times> string \<times> string" where
  "urlsplit url0 =
     (let pre = before CHR '':'' url0;
          (scheme1, url1) =
            (if CHR '':'' \<in> set url0 \<and> pre \<noteq> [] \<and> isalpha (hd pre)
                \<and> (\<forall>c \<in> set pre. c \<in> set scheme_chars)
             then (map lower_char pre, after CHR '':'' url0) else ('''', url0));
          (netloc1, url2) =
            (if take 2 url1 = ''//'' then splitnetloc (drop 2 url1) else ('''', url1));
          (url3, fragment1) =
            (if CHR ''#'' \<in> set url2 then (before CHR ''#'' url2, after CHR ''#'' url2)
             else (url2, ''''));
          (url4, query1) =
            (if CHR ''?'' \<in> set url3 then (before CHR ''?'' url3, after CHR ''?'' url3)
             else (url3, ''''))
      in (scheme1, netloc1, url4, query1, fragment1))"

definition urlparse :: "string \<Rightarrow> ParseResult" where
  "urlparse url0 =
     (let (scheme1, netloc1, url, query1, fragment1) = urlsplit url0;
          (url', params1) =
            (if scheme1 \<in> set uses_params \<and> CHR '';'' \<in> set url then splitparams url
             else (url, ''''))
      in \<lparr>scheme = scheme1, netloc = netloc1, path = url', params = params1,
          query = query1, fragment = fragment1\<rparr>)"

text \<open>\<^verbatim>\<open>_parse_hostname\<close>: \<^verbatim>\<open>parsedbits.netloc or parsedbits.path\<close>.\<close>

definition parse_hostname :: "string \<Rightarrow> string" where
  "parse_hostname url =
     (let parsedbits = urlparse url
      in if netloc parsedbits \<noteq> [] then netloc parsedbits else path parsedbits)"

subsection \<open>The sectioned parser\<close>

text \<open>
  Modelled from the spec: \<^verbatim>\<open>ConfigParser\<close> is imported from \<^verbatim>\<open>_compatimports\<close>, which is not
  among the sources; it is the sectioned-file parser of the Python standard library. The
  spec's data model describes a default section that holds global fallback values and
  named sections of key-value pairs. The model keeps that structure: the default section,
  and the named sections in the order they were added. A lookup in a named section falls
  back to the default section; the section names \<^verbatim>\<open>DEFAULT\<close> and the empty string address the
  default section where the library says so. The library's checks on what is stored are
  part of the model: \<^verbatim>\<open>add_section\<close> rejects the name \<^verbatim>\<open>DEFAULT\<close>, and \<^verbatim>\<open>set\<close> rejects a value
  with a percent sign that is neither doubled nor the start of a \<^verbatim>\<open>%(name)s\<close> reference.
  Option names are taken as already lower-cased. The substitution that the library
  performs when it reads a value holding a percent sign is not part of the model: a value
  is read as it is stored.
\<close>

record ConfigParser =
  defaults :: "string \<rightharpoonup> string"
  sects :: "(string \<times> (string \<rightharpoonup> string)) list"

definition new_ConfigParser :: ConfigParser where
  "new_ConfigParser = \<lparr>defaults = Map.empty, sects = []\<rparr>"

definition default_section :: string where
  "default_section = ''DEFAULT''"

definition sections :: "ConfigParser \<Rightarrow> string list" where
  "sections cfg = map fst (sects cfg)"

fun set_section ::
  "string \<Rightarrow> (string \<rightharpoonup> string) \<Rightarrow> (string \<times> (string \<rightharpoonup> string)) list
     \<Rightarrow> (string \<times> (string \<rightharpoonup> string)) list" where
  "set_section name d [] = [(name, d)]"
| "set_section name d ((n, e) # rest) =
     (if n = name then (n, d) # rest else (n, e) # set_section name d rest)"

definition add_section :: "ConfigParser \<Rightarrow> string \<Rightarrow> ConfigParser result" where
  "add_section cfg name =
     (if name = default_section then Inl ValueError
      else if name \<in> set (sections cfg) then Inl DuplicateSectionError
      else Inr (cfg\<lparr>sects := sects cfg @ [(name, Map.empty)]\<rparr>))"

definition has_option :: "ConfigParser \<Rightarrow> string \<Rightarrow> string \<Rightarrow> bool" where
  "has_option cfg name opt =
     (if name = [] \<or> name = default_section then defaults cfg opt \<noteq> None
      else case map_of (sects cfg) name of
             None \<Rightarrow> False
           | Some d \<Rightarrow> d opt \<noteq> None \<or> defaults cfg opt \<noteq> None)"

definition get_option :: "ConfigParser \<Rightarrow> string \<Rightarrow> string \<Rightarrow> string result" where
  "get_option cfg name opt =
     (case map_of (sects cfg) name of
        None \<Rightarrow>
          (if name \<noteq> default_section then Inl NoSectionError
           else case defaults cfg opt of None \<Rightarrow> Inl NoOptionError | Some v \<Rightarrow> Inr v)
      | Some d \<Rightarrow>
          (case (defaults cfg ++ d) opt of None \<Rightarrow> Inl NoOptionError | Some v \<Rightarrow> Inr v))"

text \<open>
  The value check of \<^verbatim>\<open>set\<close> (\<^verbatim>\<open>before_set\<close>): the doubled percent signs are taken out
  (\<^verbatim>\<open>value.replace('%%', '')\<close>), then the references \<^verbatim>\<open>%(name)s\<close> with a non-empty name; a
  percent sign that is left makes the value invalid.
\<close>

fun drop_escaped :: "string \<Rightarrow> string" where
  "drop_escaped (a # b # r) =
     (if a = CHR ''%'' \<and> b = CHR ''%'' then drop_escaped r else a # drop_escaped (b # r))"
| "drop_escaped r = r"

definition key_rest :: "string \<Rightarrow> string option" where
  "key_rest r =
     (case r of
        [] \<Rightarrow> None
      | c # r1 \<Rightarrow>
          if c = CHR ''(''
             \<and> takeWhile (\<lambda>x. x \<noteq> CHR '')'') r1 \<noteq> []
             \<and> take 2 (dropWhile (\<lambda>x. x \<noteq> CHR '')'') r1) = '')s''
          then Some (drop 2 (dropWhile (\<lambda>x. x \<noteq> CHR '')'') r1))
          else None)"

function drop_keys :: "string \<Rightarrow> string" where
  "drop_keys [] = []"
| "drop_keys (c # r) =
     (if c = CHR ''%'' \<and> key_rest r \<noteq> None then drop_keys (the (key_rest r))
      else c # drop_keys r)"
  by pat_completeness auto
termination
proof (relation "measure length")
  show "wf (measure length)"
    by simp
next
  fix c :: char and r :: string
  show "(r, c # r) \<in> measure length"
    by simp
next
  fix c :: char and r :: string
  assume a: "c = CHR ''%'' \<and> key_rest r \<noteq> None"
  have "length (the (key_rest r)) \<le> length r"
  proof (cases r)
    case Nil
    with a show ?thesis by (simp add: key_rest_def)
  next
    case (Cons x r1)
    have "length (dropWhile (\<lambda>x. x \<noteq> CHR '')'') r1) \<le> length r1"
      by (rule length_dropWhile_le)
    with a Cons show ?thesis
      by (auto simp: key_rest_def split: if_splits)
  qed
  then show "(the (key_rest r), c # r) \<in> measure length"
    by simp
qed

definition valid_interpolation :: "string \<Rightarrow> bool" where
  "valid_interpolation v = (CHR ''%'' \<notin> set (drop_keys (drop_escaped v)))"

definition set_option ::
  "ConfigParser \<Rightarrow> string \<Rightarrow> string \<Rightarrow> string \<Rightarrow> ConfigParser result" where
  "set_option cfg name opt v =
     (if v \<noteq> [] \<and> \<not> valid_interpolation v then Inl ValueError
      else if name = [] \<or> name = default_section
      then Inr (cfg\<lparr>defaults := (defaults cfg)(opt \<mapsto> v)\<rparr>)
      else case map_of (sects cfg) name of
             None \<Rightarrow> Inl NoSectionError
           | Some d \<Rightarrow> Inr (cfg\<lparr>sects := set_section name (d(opt \<mapsto> v)) (sects cfg)\<rparr>))"

definition remove_option :: "ConfigParser \<Rightarrow> string \<Rightarrow> string \<Rightarrow> ConfigParser result" where
  "remove_option cfg name opt =
     (if name = [] \<or> name = default_section
      then Inr (cfg\<lparr>defaults := (defaults cfg)(opt := None)\<rparr>)
      else case map_of (sects cfg) name of
             None \<Rightarrow> Inl NoSectionError
           | Some d \<Rightarrow> Inr (cfg\<lparr>sects := set_section name (d(opt := None)) (sects cfg)\<rparr>))"

text \<open>\<^verbatim>\<open>dict(cfg.items(section))\<close>: the default values, overridden by the section's own.\<close>

definition items :: "ConfigParser \<Rightarrow> string \<Rightarrow> (string \<rightharpoonup> string) result" where
  "items cfg name =
     (case map_of (sects cfg) name of
        None \<Rightarrow> (if name \<noteq> default_section then Inl NoSectionError else Inr (defaults cfg))
      | Some d \<Rightarrow> Inr (defaults cfg ++ d))"

subsection \<open>Files\<close>

text \<open>
  Modelled from the spec: \<^verbatim>\<open>MozillaCookieJar\<close> and \<^verbatim>\<open>LoadError\<close> are imported from
  \<^verbatim>\<open>_compatimports\<close>, which is not among the sources; they are the browser cookie-file jar
  of the Python standard library. The spec's data model describes a cookie jar as an ordered
  collection of cookie records backed by one file, where inserting a cookie replaces the
  one with the same domain, path and name. A save leaves out the session cookies and the
  expired ones, and a load skips the expired ones, as the library does.
\<close>

record cookie =
  ck_domain :: string
  ck_path :: string
  ck_name :: string
  ck_value :: string
  ck_expires :: "nat option"
  ck_discard :: bool

text \<open>
  The content of a file is kept parsed: text that the sectioned parser accepts, text in the
  cookie-file format, or text that is in neither format. An empty file is its own case: the
  sectioned parser reads it as no sections, the cookie jar rejects it (its first line is
  not the format's header).
\<close>

datatype content =
    Empty
  | Sectioned ConfigParser
  | Cookies "cookie list"
  | Garbled

datatype node =
    File content nat      \<comment> \<open>content and permission bits\<close>
  | Dir nat               \<comment> \<open>permission bits\<close>

text \<open>
  The environment: the file-system nodes by path, the log of the paths opened for writing
  (oldest first), the home directory, the clock and the lines printed. A path names a node
  by its spelling. Permission bits are the ones the program asks for (the process umask is
  applied by the operating system). The model has no access control. A new file can be
  made only in a directory that exists; the empty path and a path of slashes only stand
  for the working directory and the root, which exist without a node of their own.
\<close>

record world =
  nodes :: "string \<rightharpoonup> node"
  wlog :: "string list"
  home :: string
  clock :: nat
  stdout :: "string list"

definition path_exists :: "world \<Rightarrow> string \<Rightarrow> bool" where
  "path_exists w p = (nodes w p \<noteq> None)"

definition as_sectioned :: "content \<Rightarrow> ConfigParser option" where
  "as_sectioned c =
     (case c of
        Empty \<Rightarrow> Some new_ConfigParser
      | Sectioned cfg \<Rightarrow> Some cfg
      | Cookies cs \<Rightarrow> (if cs = [] then Some new_ConfigParser else None)
      | Garbled \<Rightarrow> None)"


definition rstrip :: "char \<Rightarrow> string \<Rightarrow> string" where
  "rstrip c s = rev (dropWhile (\<lambda>x. x = c) (rev s))"

text \<open>
  \<^verbatim>\<open>os.path.expanduser\<close>: a leading \<^verbatim>\<open>~\<close> followed by a slash or by the end is replaced by
  the home directory. A leading \<^verbatim>\<open>~name\<close> is left as it is (the account database is not
  part of the model).
\<close>

definition expanduser :: "world \<Rightarrow> string \<Rightarrow> string" where
  "expanduser w p =
     (case p of
        [] \<Rightarrow> p
      | c # rest \<Rightarrow>
          if c = CHR ''~'' \<and> (rest = [] \<or> hd rest = CHR ''/'')
          then (let r = rstrip CHR ''/'' (home w) @ rest in if r = [] then ''/'' else r)
          else p)"

text \<open>\<^verbatim>\<open>os.path.split\<close> and \<^verbatim>\<open>os.path.dirname\<close>.\<close>

definition psplit :: "string \<Rightarrow> string \<times> string" where
  "psplit p =
     (let tail = rev (takeWhile (\<lambda>x. x \<noteq> CHR ''/'') (rev p));
          head = take (length p - length tail) p
      in (if head \<noteq> [] \<and> head \<noteq> replicate (length head) CHR ''/''
          then rstrip CHR ''/'' head else head, tail))"

definition dirname :: "string \<Rightarrow> string" where
  "dirname p = fst (psplit p)"

text \<open>
  \<^verbatim>\<open>open(p, 'w')\<close> followed by writing \<open>c\<close>. An existing file is rewritten and keeps its
  permission bits. Opening a directory fails with \<^verbatim>\<open>IsADirectoryError\<close>. A new file gets the
  default bits \<^verbatim>\<open>0o666\<close>; it needs a name (the empty path gives \<^verbatim>\<open>FileNotFoundError\<close>, a path
  that ends in a slash \<^verbatim>\<open>IsADirectoryError\<close>) and an existing parent directory:
  \<^verbatim>\<open>FileNotFoundError\<close> when the parent is missing, \<^verbatim>\<open>NotADirectoryError\<close> when it is a
  file. A failed open leaves the environment as it was.
\<close>

definition is_directory :: "world \<Rightarrow> string \<Rightarrow> bool" where
  "is_directory w d =
     (case nodes w d of
        Some (Dir m) \<Rightarrow> True
      | Some (File c m) \<Rightarrow> False
      | None \<Rightarrow> d = [] \<or> d = replicate (length d) CHR ''/'')"

definition write_file :: "world \<Rightarrow> string \<Rightarrow> content \<Rightarrow> unit result \<times> world" where
  "write_file w p c =
     (case nodes w p of
        Some (Dir m) \<Rightarrow> (Inl IsADirectoryError, w)
      | Some (File old m) \<Rightarrow>
          (Inr (), w\<lparr>nodes := (nodes w)(p \<mapsto> File c m), wlog := wlog w @ [p]\<rparr>)
      | None \<Rightarrow>
          if p = [] then (Inl FileNotFoundError, w)
          else if snd (psplit p) = [] then (Inl IsADirectoryError, w)
          else if is_directory w (dirname p)
          then (Inr (), w\<lparr>nodes := (nodes w)(p \<mapsto> File c 438), wlog := wlog w @ [p]\<rparr>)
          else (case nodes w (dirname p) of
                  Some (File c' m') \<Rightarrow> (Inl NotADirectoryError, w)
                | _ \<Rightarrow> (Inl FileNotFoundError, w)))"

text \<open>
  \<^verbatim>\<open>os.mkdir\<close>, which the program reaches only through \<^verbatim>\<open>os.makedirs\<close>, after the missing
  ancestors were made.
\<close>

definition mkdir :: "string \<Rightarrow> nat \<Rightarrow> world \<Rightarrow> unit result \<times> world" where
  "mkdir name mode w =
     (if path_exists w name then (Inl FileExistsError, w)
      else (Inr (), w\<lparr>nodes := (nodes w)(name \<mapsto> Dir mode)\<rparr>))"

text \<open>The two splits at the head of \<^verbatim>\<open>os.makedirs\<close>.\<close>

definition makedirs_split :: "string \<Rightarrow> string \<times> string" where
  "makedirs_split name =
     (let (head, tail) = psplit name
      in if tail = [] then psplit head else (head, tail))"

text \<open>
  \<^verbatim>\<open>os.makedirs(name, mode)\<close>: the missing ancestors are made with the default bits
  \<^verbatim>\<open>0o777\<close>, the leaf with \<open>mode\<close>; a \<^verbatim>\<open>FileExistsError\<close> from an ancestor is passed over.
\<close>

function makedirs :: "string \<Rightarrow> nat \<Rightarrow> world \<Rightarrow> unit result \<times> world" where
  "makedirs name mode w =
     (if fst (makedirs_split name) \<noteq> [] \<and> snd (makedirs_split name) \<noteq> []
         \<and> \<not> path_exists w (fst (makedirs_split name))
      then (case makedirs (fst (makedirs_split name)) 511 w of
              (Inl e, w1) \<Rightarrow>
                if e \<noteq> FileExistsError then (Inl e, w1)
                else if snd (makedirs_split name) = ''.'' then (Inr (), w1)
                else mkdir name mode w1
            | (Inr u, w1) \<Rightarrow>
                if snd (makedirs_split name) = ''.'' then (Inr (), w1)
                else mkdir name mode w1)
      else mkdir name mode w)"
  by pat_completeness auto
termination
proof (relation "measure (\<lambda>(name, mode, w). length name)")
  show "wf (measure (\<lambda>(name, mode, w). length name))"
    by simp
next
  fix name :: string and mode :: nat and w :: world
  assume a: "fst (makedirs_split name) \<noteq> [] \<and> snd (makedirs_split name) \<noteq> []
               \<and> \<not> path_exists w (fst (makedirs_split name))"
  have le: "length (fst (psplit p)) \<le> length p" for p
  proof -
    have "length (rstrip CHR ''/'' s) \<le> length s" for s
      using length_dropWhile_le [of "\<lambda>x. x = CHR ''/''" "rev s"]
      by (simp add: rstrip_def)
    from this [of "take (length p - length (rev (takeWhile (\<lambda>x. x \<noteq> CHR ''/'') (rev p)))) p"]
    show ?thesis
      by (auto simp: psplit_def Let_def)
  qed
  have lt: "length (fst (psplit p)) < length p" if "snd (psplit p) \<noteq> []" for p
  proof -
    let ?tail = "rev (takeWhile (\<lambda>x. x \<noteq> CHR ''/'') (rev p))"
    let ?head = "take (length p - length ?tail) p"
    have t: "?tail \<noteq> []"
      using that by (simp add: psplit_def Let_def)
    have "length ?tail \<le> length p"
      using length_takeWhile_le [of "\<lambda>x. x \<noteq> CHR ''/''" "rev p"] by simp
    with t have h: "length ?head < length p"
      by (cases ?tail) auto
    have "length (rstrip CHR ''/'' ?head) \<le> length ?head"
      using length_dropWhile_le [of "\<lambda>x. x = CHR ''/''" "rev ?head"]
      by (simp add: rstrip_def)
    with h show ?thesis
      by (auto simp: psplit_def Let_def)
  qed
  have "length (fst (makedirs_split name)) < length name"
  proof (cases "snd (psplit name) = []")
    case True
    with a have "snd (psplit (fst (psplit name))) \<noteq> []"
      by (simp add: makedirs_split_def split_beta)
    from lt [OF this] le [of name] True show ?thesis
      by (simp add: makedirs_split_def split_beta)
  next
    case False
    from lt [OF this] False show ?thesis
      by (simp add: makedirs_split_def split_beta)
  qed
  then show "((fst (makedirs_split name), 511, w), (name, mode, w))
               \<in> measure (\<lambda>(name, mode, w). length name)"
    by simp
qed

declare makedirs.simps [simp del]

text \<open>\<^verbatim>\<open>_default_location\<close>, \<^verbatim>\<open>_default_cache_location\<close> and \<^verbatim>\<open>_default_config_location\<close>.\<close>

definition default_location :: "string \<Rightarrow> string \<Rightarrow> world \<Rightarrow> string result \<times> world" where
  "default_location fname kind w =
     (let homepath = expanduser w (''~/.'' @ fname);
          xdgpath = expanduser w (''~/.'' @ kind @ ''/python-bugzilla/'' @ fname)
      in if path_exists w xdgpath then (Inr xdgpath, w)
         else if path_exists w homepath then (Inr homepath, w)
         else if \<not> path_exists w (dirname xdgpath)
         then (case makedirs (dirname xdgpath) 448 w of
                 (Inl e, w') \<Rightarrow> (Inl e, w')
               | (Inr u, w') \<Rightarrow> (Inr xdgpath, w'))
         else (Inr xdgpath, w))"

definition default_cache_location :: "string \<Rightarrow> world \<Rightarrow> string result \<times> world" where
  "default_cache_location fname w = default_location fname ''cache'' w"

definition default_config_location :: "string \<Rightarrow> world \<Rightarrow> string result \<times> world" where
  "default_config_location fname w = default_location fname ''config'' w"

subsection \<open>Reading sectioned files\<close>

text \<open>
  \<^verbatim>\<open>cfg.read(filenames)\<close>: every path in turn; a path that is not a readable file is passed
  over, the sections and options of a file are merged into what was read so far, a later
  value replacing an earlier one.
\<close>

definition merge_section ::
  "string \<times> (string \<rightharpoonup> string) \<Rightarrow> (string \<times> (string \<rightharpoonup> string)) list
     \<Rightarrow> (string \<times> (string \<rightharpoonup> string)) list" where
  "merge_section nd ss =
     (case map_of ss (fst nd) of
        None \<Rightarrow> ss @ [nd]
      | Some old \<Rightarrow> set_section (fst nd) (old ++ snd nd) ss)"

definition read_into :: "ConfigParser \<Rightarrow> ConfigParser \<Rightarrow> ConfigParser" where
  "read_into cfg fcp =
     \<lparr>defaults = defaults cfg ++ defaults fcp,
      sects = fold merge_section (sects fcp) (sects cfg)\<rparr>"

fun read_files :: "ConfigParser \<Rightarrow> world \<Rightarrow> string list \<Rightarrow> ConfigParser result" where
  "read_files cfg w [] = Inr cfg"
| "read_files cfg w (p # ps) =
     (case nodes w p of
        Some (File c m) \<Rightarrow>
          (case as_sectioned c of
             None \<Rightarrow> Inl ParsingError
           | Some fcp \<Rightarrow> read_files (read_into cfg fcp) w ps)
      | _ \<Rightarrow> read_files cfg w ps)"

subsection \<open>\<^verbatim>\<open>_BugzillaRCFile\<close>\<close>

record RCFile =
  rc_cfg :: ConfigParser
  rc_configpaths :: "string list"

definition get_default_configpaths :: "string list" where
  "get_default_configpaths =
     [''/etc/bugzillarc'', ''~/.bugzillarc'', ''~/.config/python-bugzilla/bugzillarc'']"

text \<open>
  \<^verbatim>\<open>set_configpaths\<close>. The argument is \<^verbatim>\<open>None\<close> or a list of paths; \<^verbatim>\<open>listify\<close> (imported
  from \<^verbatim>\<open>_util\<close>, which is not among the sources) wraps a value that is not a list and
  leaves a list as it is. When the parser raises, the object keeps its fields.
\<close>

definition set_configpaths :: "RCFile \<Rightarrow> world \<Rightarrow> string list option \<Rightarrow> RCFile result" where
  "set_configpaths rc w configpaths =
     (let paths = map (expanduser w) (case configpaths of None \<Rightarrow> [] | Some ps \<Rightarrow> ps)
      in case read_files new_ConfigParser w paths of
           Inl e \<Rightarrow> Inl e
         | Inr cfg \<Rightarrow> Inr (rc\<lparr>rc_cfg := cfg, rc_configpaths := paths\<rparr>))"

text \<open>\<^verbatim>\<open>__init__\<close> ends in \<^verbatim>\<open>set_configpaths(None)\<close>, which reads no file.\<close>

definition init_RCFile :: RCFile where
  "init_RCFile = \<lparr>rc_cfg = new_ConfigParser, rc_configpaths = []\<rparr>"

definition get_configpaths :: "RCFile \<Rightarrow> string list" where
  "get_configpaths rc = rc_configpaths rc"

definition get_default_url :: "RCFile \<Rightarrow> string option" where
  "get_default_url rc = defaults (rc_cfg rc) ''url''"

text \<open>Python's \<^verbatim>\<open>sub in s\<close> on strings.\<close>

fun contains :: "string \<Rightarrow> string \<Rightarrow> bool" where
  "contains sub [] = (sub = [])"
| "contains sub (c # cs) = (prefix sub (c # cs) \<or> contains sub cs)"

text \<open>
  The loop of \<^verbatim>\<open>parse\<close> over the sorted section names. The variable \<^verbatim>\<open>section\<close> is empty
  on entry to every iteration, since the loop breaks as soon as it is non-empty.
\<close>

fun find_section :: "string \<Rightarrow> string \<Rightarrow> string list \<Rightarrow> string" where
  "find_section url urlhost [] = ''''"
| "find_section url urlhost (sectionhost # rest) =
     (let section =
        (if CHR ''/'' \<notin> set sectionhost
         then (if sectionhost = urlhost then sectionhost else '''')
         else if contains sectionhost url then sectionhost else '''')
      in if section \<noteq> '''' then section else find_section url urlhost rest)"

definition parse :: "RCFile \<Rightarrow> string \<Rightarrow> (string \<rightharpoonup> string) result" where
  "parse rc url =
     (let urlhost = parse_hostname url;
          section = find_section url urlhost (sort (sections (rc_cfg rc)))
      in if section = '''' then Inr Map.empty else items (rc_cfg rc) section)"

subsection \<open>\<^verbatim>\<open>_BugzillaTokenCache\<close>\<close>

record TokenCache =
  tc_filename :: "string option"
  tc_cfg :: "ConfigParser option"


text \<open>
  \<^verbatim>\<open>_get_domain\<close>: the key is \<^verbatim>\<open>urlparse(url)[1]\<close>, the network location. The methods return
  the object as they leave it, also when they raise.
\<close>

definition get_domain :: "TokenCache \<Rightarrow> string \<Rightarrow> string result \<times> TokenCache" where
  "get_domain tc url =
     (let domain = netloc (urlparse url)
      in case tc_cfg tc of
           None \<Rightarrow> (Inl AttributeError, tc)
         | Some cfg \<Rightarrow>
             if domain \<notin> set (sections cfg)
             then (case add_section cfg domain of
                     Inl e \<Rightarrow> (Inl e, tc)
                   | Inr cfg' \<Rightarrow> (Inr domain, tc\<lparr>tc_cfg := Some cfg'\<rparr>))
             else (Inr domain, tc))"

definition get_value :: "TokenCache \<Rightarrow> string \<Rightarrow> string option result \<times> TokenCache" where
  "get_value tc url =
     (case get_domain tc url of
        (Inl e, tc1) \<Rightarrow> (Inl e, tc1)
      | (Inr domain, tc1) \<Rightarrow>
          (case tc_cfg tc1 of
             None \<Rightarrow> (Inl AttributeError, tc1)
           | Some cfg \<Rightarrow>
               if has_option cfg domain ''token''
               then (case get_option cfg domain ''token'' of
                       Inl e \<Rightarrow> (Inl e, tc1)
                     | Inr v \<Rightarrow> (Inr (Some v), tc1))
               else (Inr None, tc1)))"

definition set_value ::
  "TokenCache \<Rightarrow> world \<Rightarrow> string \<Rightarrow> string option \<Rightarrow> unit result \<times> TokenCache \<times> world" where
  "set_value tc w url val =
     (case get_value tc url of
        (Inl e, tc1) \<Rightarrow> (Inl e, tc1, w)
      | (Inr cur, tc1) \<Rightarrow>
          if cur = val then (Inr (), tc1, w)
          else
            (case get_domain tc1 url of
               (Inl e, tc2) \<Rightarrow> (Inl e, tc2, w)
             | (Inr domain, tc2) \<Rightarrow>
                 (case tc_cfg tc2 of
                    None \<Rightarrow> (Inl AttributeError, tc2, w)
                  | Some cfg \<Rightarrow>
                      (case (case val of
                               None \<Rightarrow> remove_option cfg domain ''token''
                             | Some v \<Rightarrow> set_option cfg domain ''token'' v) of
                         Inl e \<Rightarrow> (Inl e, tc2, w)
                       | Inr cfg' \<Rightarrow>
                           (let tc3 = tc2\<lparr>tc_cfg := Some cfg'\<rparr>
                            in case tc_filename tc3 of
                                 None \<Rightarrow> (Inr (), tc3, w)
                               | Some f \<Rightarrow>
                                   if f = [] then (Inr (), tc3, w)
                                   else (case write_file w f (Sectioned cfg') of
                                           (Inl e, w') \<Rightarrow> (Inl e, tc3, w')
                                         | (Inr u, w') \<Rightarrow> (Inr (), tc3, w')))))))"

definition get_filename :: "TokenCache \<Rightarrow> string option" where
  "get_filename tc = tc_filename tc"


subsection \<open>\<^verbatim>\<open>_save_api_key\<close>\<close>

text \<open>
  \<^verbatim>\<open>str.strip()\<close>: the characters below 256 that Python counts as white space, among them
  the next-line character \<open>0x85\<close> and the no-break space \<open>0xA0\<close>.
\<close>

definition isspace :: "char \<Rightarrow> bool" where
  "isspace c =
     (c \<in> set [CHR 0x09, CHR 0x0A, CHR 0x0B, CHR 0x0C, CHR 0x0D,
               CHR 0x1C, CHR 0x1D, CHR 0x1E, CHR 0x1F, CHR 0x20, CHR 0x85, CHR 0xA0])"

definition strip :: "string \<Rightarrow> string" where
  "strip s = rev (dropWhile isspace (rev (dropWhile isspace s)))"

definition save_api_key ::
  "string \<Rightarrow> string \<Rightarrow> string list option \<Rightarrow> world \<Rightarrow> unit result \<times> world" where
  "save_api_key url api_key configpaths w =
     (case (case configpaths of
              Some (p # ps) \<Rightarrow> (Inr p, w)
            | _ \<Rightarrow> default_config_location ''bugzillarc'' w) of
        (Inl e, w1) \<Rightarrow> (Inl e, w1)
      | (Inr config_filename, w1) \<Rightarrow>
          (let section = parse_hostname url
           in case read_files new_ConfigParser w1 [config_filename] of
                Inl e \<Rightarrow> (Inl e, w1)
              | Inr cfg \<Rightarrow>
                  (case (if section \<notin> set (sections cfg) then add_section cfg section
                         else Inr cfg) of
                     Inl e \<Rightarrow> (Inl e, w1)
                   | Inr cfg1 \<Rightarrow>
                       (case set_option cfg1 section ''api_key'' (strip api_key) of
                          Inl e \<Rightarrow> (Inl e, w1)
                        | Inr cfg2 \<Rightarrow>
                            (case write_file w1 config_filename (Sectioned cfg2) of
                               (Inl e, w2) \<Rightarrow> (Inl e, w2)
                             | (Inr u, w2) \<Rightarrow>
                                 (Inr (), w2\<lparr>stdout := stdout w2 @
                                    [''API key written to '' @ config_filename]\<rparr>))))))"

subsection \<open>\<^verbatim>\<open>_BugzillaCookieCache\<close>\<close>

record CookieJar =
  cj_filename :: "string option"
  cj_cookies :: "cookie list"

record CookieCache =
  cookiejar :: "CookieJar option"

definition init_CookieCache :: CookieCache where
  "init_CookieCache = \<lparr>cookiejar = None\<rparr>"

definition is_expired :: "world \<Rightarrow> cookie \<Rightarrow> bool" where
  "is_expired w c = (case ck_expires c of None \<Rightarrow> False | Some t \<Rightarrow> t \<le> clock w)"

text \<open>\<^verbatim>\<open>cj.set_cookie(cookie)\<close>: replace the cookie of the same domain, path and name.\<close>

fun jar_put :: "cookie \<Rightarrow> cookie list \<Rightarrow> cookie list" where
  "jar_put c [] = [c]"
| "jar_put c (d # ds) =
     (if ck_domain d = ck_domain c \<and> ck_path d = ck_path c \<and> ck_name d = ck_name c
      then c # ds else d # jar_put c ds)"

definition set_cookie :: "CookieJar \<Rightarrow> cookie \<Rightarrow> CookieJar" where
  "set_cookie cj c = cj\<lparr>cj_cookies := jar_put c (cj_cookies cj)\<rparr>"

text \<open>\<^verbatim>\<open>cj.save()\<close> for a jar with file name \<open>f\<close>.\<close>

definition jar_save :: "world \<Rightarrow> string \<Rightarrow> CookieJar \<Rightarrow> unit result \<times> world" where
  "jar_save w f cj =
     write_file w f
       (Cookies (filter (\<lambda>c. \<not> ck_discard c \<and> \<not> is_expired w c) (cj_cookies cj)))"





definition cc_get_filename :: "CookieCache \<Rightarrow> string option result" where
  "cc_get_filename cc =
     (case cookiejar cc of None \<Rightarrow> Inl AttributeError | Some cj \<Rightarrow> Inr (cj_filename cj))"

definition get_cookiejar :: "CookieCache \<Rightarrow> CookieJar option" where
  "get_cookiejar cc = cookiejar cc"

definition set_cookies ::
  "CookieCache \<Rightarrow> world \<Rightarrow> cookie list \<Rightarrow> unit result \<times> CookieCache \<times> world" where
  "set_cookies cc w cookies =
     (case cookiejar cc of
        None \<Rightarrow> (Inr (), cc, w)
      | Some cj \<Rightarrow>
          (let cj' = fold (\<lambda>c j. set_cookie j c) cookies cj;
               cc' = cc\<lparr>cookiejar := Some cj'\<rparr>
           in case cj_filename cj' of
                None \<Rightarrow> (Inr (), cc', w)
              | Some f \<Rightarrow>
                  (case jar_save w f cj' of
                     (Inl e, w') \<Rightarrow> (Inl e, cc', w')
                   | (Inr u, w') \<Rightarrow> (Inr (), cc', w'))))"

subsection \<open>Notions used to state the properties\<close>

text \<open>
  The match rule in the words of the specification: a name without a slash matches when
  it equals the host identifier of the URL, a name with a slash matches when it is a
  substring of the URL.
\<close>

definition section_matches :: "string \<Rightarrow> string \<Rightarrow> bool" where
  "section_matches url name =
     (if CHR ''/'' \<notin> set name then name = parse_hostname url else sublist name url)"

text \<open>The key-value pairs that a named section holds itself (none when it is absent).\<close>

definition section_dict :: "ConfigParser \<Rightarrow> string \<Rightarrow> (string \<rightharpoonup> string)" where
  "section_dict cfg s = (case map_of (sects cfg) s of None \<Rightarrow> Map.empty | Some d \<Rightarrow> d)"

text \<open>
  The parser after \<^verbatim>\<open>_get_domain\<close> has made sure that a section exists, and the value that
  \<^verbatim>\<open>get_value\<close> reads for a key: \<^verbatim>\<open>has_option\<close> followed by \<^verbatim>\<open>get\<close>.
\<close>

definition ensure_section :: "ConfigParser \<Rightarrow> string \<Rightarrow> ConfigParser" where
  "ensure_section cfg k =
     (if k \<in> set (sections cfg) then cfg else cfg\<lparr>sects := sects cfg @ [(k, Map.empty)]\<rparr>)"

definition lookup_token :: "ConfigParser \<Rightarrow> string \<Rightarrow> string option" where
  "lookup_token cfg k =
     (if has_option cfg k ''token'' then (defaults cfg ++ section_dict cfg k) ''token'' else None)"


definition tc_section_token :: "TokenCache \<Rightarrow> string \<Rightarrow> string option" where
  "tc_section_token tc k =
     (case tc_cfg tc of None \<Rightarrow> None | Some c \<Rightarrow> section_dict c k ''token'')"

text \<open>
  What a file holds as the sectioned parser reads it, the files of a list of paths that
  the parser reads (in the order of the list), the key-value mappings that those files
  give for one section name, and the value of a key in the last mapping of a list that
  sets it.
\<close>

definition file_sectioned :: "world \<Rightarrow> string \<Rightarrow> ConfigParser option" where
  "file_sectioned w p =
     (case nodes w p of Some (File c m) \<Rightarrow> as_sectioned c | _ \<Rightarrow> None)"

definition file_option :: "world \<Rightarrow> string \<Rightarrow> string \<Rightarrow> string \<Rightarrow> string option" where
  "file_option w p s k =
     (case file_sectioned w p of None \<Rightarrow> None | Some cfg \<Rightarrow> section_dict cfg s k)"

fun file_stores :: "world \<Rightarrow> string list \<Rightarrow> ConfigParser list" where
  "file_stores w [] = []"
| "file_stores w (p # ps) =
     (case file_sectioned w p of None \<Rightarrow> file_stores w ps | Some cfg \<Rightarrow> cfg # file_stores w ps)"

definition dicts_for :: "string \<Rightarrow> ConfigParser list \<Rightarrow> (string \<rightharpoonup> string) list" where
  "dicts_for s cs = concat (map (\<lambda>c. map snd (filter (\<lambda>nd. fst nd = s) (sects c))) cs)"

fun last_set :: "(string \<rightharpoonup> string) list \<Rightarrow> string \<Rightarrow> string option" where
  "last_set [] k = None"
| "last_set (d # ds) k = (case last_set ds k of Some v \<Rightarrow> Some v | None \<Rightarrow> d k)"

text \<open>
  The settings resolved for a URL from a list of configuration paths: a new
  \<^verbatim>\<open>_BugzillaRCFile\<close>, \<^verbatim>\<open>set_configpaths\<close>, then \<^verbatim>\<open>parse\<close>.
\<close>

definition rc_after :: "world \<Rightarrow> string list \<Rightarrow> RCFile" where
  "rc_after w paths =
     (case set_configpaths init_RCFile w (Some paths) of
        Inl e \<Rightarrow> init_RCFile
      | Inr rc \<Rightarrow> rc)"

definition resolved :: "world \<Rightarrow> string list \<Rightarrow> string \<Rightarrow> string \<Rightarrow> string option" where
  "resolved w paths url key =
     (case set_configpaths init_RCFile w (Some paths) of
        Inl e \<Rightarrow> None
      | Inr rc \<Rightarrow> (case parse rc url of Inl e \<Rightarrow> None | Inr m \<Rightarrow> m key))"

text \<open>The two candidate paths of \<^verbatim>\<open>_default_location\<close>.\<close>

definition legacy_path :: "world \<Rightarrow> string \<Rightarrow> string" where
  "legacy_path w fname = expanduser w (''~/.'' @ fname)"

definition modern_path :: "world \<Rightarrow> string \<Rightarrow> string \<Rightarrow> string" where
  "modern_path w fname kind = expanduser w (''~/.'' @ kind @ ''/python-bugzilla/'' @ fname)"

text \<open>
  The values that the parser's \<^verbatim>\<open>set\<close> accepts (\<^verbatim>\<open>None\<close> stands for a removal, which is
  always accepted), and the paths that can be opened for writing.
\<close>

definition accepts_value :: "string option \<Rightarrow> bool" where
  "accepts_value v = (case v of None \<Rightarrow> True | Some x \<Rightarrow> x = [] \<or> valid_interpolation x)"

definition can_write :: "world \<Rightarrow> string \<Rightarrow> bool" where
  "can_write w p =
     (case nodes w p of
        Some (Dir m) \<Rightarrow> False
      | Some (File c m) \<Rightarrow> True
      | None \<Rightarrow> p \<noteq> [] \<and> snd (psplit p) \<noteq> [] \<and> is_directory w (dirname p))"

text \<open>
  The default value that a file holds for a key.
\<close>

definition file_default :: "world \<Rightarrow> string \<Rightarrow> string \<Rightarrow> string option" where
  "file_default w p k =
     (case file_sectioned w p of None \<Rightarrow> None | Some cfg \<Rightarrow> defaults cfg k)"

subsection \<open>Example inputs\<close>


definition rc_example :: RCFile where
  "rc_example =
     \<lparr>rc_cfg = \<lparr>defaults = [''url'' \<mapsto> ''https://b.org''],
                sects = [(''b.org'', [''user'' \<mapsto> ''bob'']),
                         (''a.com/sub'', [''api_key'' \<mapsto> ''SUB'']),
                         (''a.com'', [''api_key'' \<mapsto> ''HOST''])]\<rparr>,
      rc_configpaths = []\<rparr>"


definition cfg_h_tok :: ConfigParser where
  "cfg_h_tok = \<lparr>defaults = Map.empty, sects = [(''h'', [''token'' \<mapsto> ''tok''])]\<rparr>"

definition tc_h_tok :: TokenCache where
  "tc_h_tok = \<lparr>tc_filename = Some ''/t/bugzillatoken'', tc_cfg = Some cfg_h_tok\<rparr>"

definition w_garbled :: world where
  "w_garbled =
     \<lparr>nodes = [''/c/bugzillacookies'' \<mapsto> File Garbled 420], wlog = [],
      home = ''/home/u'', clock = 0, stdout = []\<rparr>"

definition cookie_sid :: cookie where
  "cookie_sid =
     \<lparr>ck_domain = ''x.com'', ck_path = ''/'', ck_name = ''sid'', ck_value = ''123'',
      ck_expires = Some 100, ck_discard = False\<rparr>"

definition cfg_rc :: ConfigParser where
  "cfg_rc =
     \<lparr>defaults = [''url'' \<mapsto> ''https://b.org''],
      sects = [(''b.org'', [''user'' \<mapsto> ''bob'']),
               (''a.com'', [''api_key'' \<mapsto> ''OLD'', ''user'' \<mapsto> ''amy''])]\<rparr>"

definition w_rc :: world where
  "w_rc =
     \<lparr>nodes = [''/home/u/.bugzillarc'' \<mapsto> File (Sectioned cfg_rc) 384], wlog = [],
      home = ''/home/u'', clock = 0, stdout = []\<rparr>"

definition cfg_etc :: ConfigParser where
  "cfg_etc =
     \<lparr>defaults = Map.empty,
      sects = [(''h'', [''api_key'' \<mapsto> ''ETC'', ''user'' \<mapsto> ''root''])]\<rparr>"

definition cfg_home :: ConfigParser where
  "cfg_home =
     \<lparr>defaults = Map.empty, sects = [(''h'', [''api_key'' \<mapsto> ''HOME''])]\<rparr>"

definition w_two :: world where
  "w_two =
     \<lparr>nodes = [''/etc/bugzillarc'' \<mapsto> File (Sectioned cfg_etc) 420,
               ''/home/u/.bugzillarc'' \<mapsto> File (Sectioned cfg_home) 384],
      wlog = [], home = ''/home/u'', clock = 0, stdout = []\<rparr>"

definition w_fresh :: world where
  "w_fresh = \<lparr>nodes = [''/home/u'' \<mapsto> Dir 493], wlog = [], home = ''/home/u'',
               clock = 0, stdout = []\<rparr>"

definition w_legacy :: world where
  "w_legacy =
     \<lparr>nodes = [''/home/u'' \<mapsto> Dir 493, ''/home/u/.bugzillatoken'' \<mapsto> File Empty 384],
      wlog = [], home = ''/home/u'', clock = 0, stdout = []\<rparr>"

definition w_both :: world where
  "w_both =
     \<lparr>nodes = [''/home/u'' \<mapsto> Dir 493, ''/home/u/.bugzillatoken'' \<mapsto> File Empty 384,
               ''/home/u/.cache'' \<mapsto> Dir 493,
               ''/home/u/.cache/python-bugzilla'' \<mapsto> Dir 448,
               ''/home/u/.cache/python-bugzilla/bugzillatoken'' \<mapsto> File Empty 384],
      wlog = [], home = ''/home/u'', clock = 0, stdout = []\<rparr>"

definition w_tok :: world where
  "w_tok = \<lparr>nodes = [''/t'' \<mapsto> Dir 448], wlog = [], home = ''/home/u'', clock = 0, stdout = []\<rparr>"





section \<open>Properties\<close>

subsection \<open>Evaluating the URL splitter\<close>

lemmas urlparse_defs =
  urlparse_def urlsplit_def before_def after_def splitnetloc_def splitparams_def
  isalpha_def scheme_chars_def lower_char_def uses_params_def parse_hostname_def

subsection \<open>Section lookup\<close>

lemma contains_sublist: "contains sub s = sublist sub s"
  by (induction s) (auto simp: sublist_Cons_right)

lemma find_section_find:
  "'''' \<notin> set xs \<Longrightarrow>
   find_section url (parse_hostname url) xs =
     (case List.find (section_matches url) xs of None \<Rightarrow> '''' | Some s \<Rightarrow> s)"
  by (induction xs) (auto simp: section_matches_def contains_sublist Let_def)

lemma find_in_set: "List.find P xs = Some s \<Longrightarrow> s \<in> set xs"
  by (induction xs) (auto split: if_splits)

lemma items_section:
  "s \<in> set (sections cfg) \<Longrightarrow> items cfg s = Inr (defaults cfg ++ section_dict cfg s)"
proof -
  assume "s \<in> set (sections cfg)"
  then have "map_of (sects cfg) s \<noteq> None"
    by (simp add: sections_def map_of_eq_None_iff)
  then show ?thesis
    by (auto simp: items_def section_dict_def)
qed

text \<open>
  C1. For a store whose section names are all non-empty (the parser never reads an empty
  section name from a file), \<^verbatim>\<open>parse\<close> goes through the section names in sorted order and
  takes the first one that matches: a name without a slash matches only when it equals the
  host identifier of the URL, a name with a slash only when it is a substring of the URL.
  When no name matches the result is the empty mapping; otherwise it is the mapping of the
  items of that first section, which holds every key-value pair of the section (over the
  values of the default section).
\<close>

theorem parse_first_match:
  assumes "'''' \<notin> set (sections (rc_cfg rc))"
  shows "parse rc url =
           Inr (case List.find (section_matches url) (sort (sections (rc_cfg rc))) of
                  None \<Rightarrow> Map.empty
                | Some s \<Rightarrow> defaults (rc_cfg rc) ++ section_dict (rc_cfg rc) s)
         \<and> (\<forall>s m. List.find (section_matches url) (sort (sections (rc_cfg rc))) = Some s
                \<and> parse rc url = Inr m \<longrightarrow> section_dict (rc_cfg rc) s \<subseteq>\<^sub>m m)"
proof -
  let ?xs = "sort (sections (rc_cfg rc))"
  from assms have ne: "'''' \<notin> set ?xs" by simp
  have eq: "parse rc url =
           Inr (case List.find (section_matches url) ?xs of
                  None \<Rightarrow> Map.empty
                | Some s \<Rightarrow> defaults (rc_cfg rc) ++ section_dict (rc_cfg rc) s)"
  proof (cases "List.find (section_matches url) ?xs")
    case None
    with find_section_find [OF ne, of url] show ?thesis
      by (simp add: parse_def)
  next
    case (Some s)
    from find_in_set [OF Some] have mem: "s \<in> set (sections (rc_cfg rc))" by simp
    with assms have "s \<noteq> ''''" by auto
    with Some find_section_find [OF ne, of url] items_section [OF mem] show ?thesis
      by (simp add: parse_def)
  qed
  moreover have "section_dict (rc_cfg rc) s \<subseteq>\<^sub>m m"
    if "List.find (section_matches url) ?xs = Some s" and "parse rc url = Inr m" for s m
    using that eq by (auto simp: map_le_def map_add_def split: option.splits)
  ultimately show ?thesis by blast
qed

lemma rc_example_host: "parse_hostname ''http://a.com/sub/x'' = ''a.com''"
  by (simp add: urlparse_defs)

lemma rc_example_sorted:
  "sort (sections (rc_cfg rc_example)) = [''a.com'', ''a.com/sub'', ''b.org'']"
  by code_simp

theorem parse_first_match_witness:
  "'''' \<notin> set (sections (rc_cfg rc_example))
   \<and> (case parse rc_example ''http://a.com/sub/x'' of
        Inl e \<Rightarrow> None | Inr m \<Rightarrow> m ''api_key'') = Some ''HOST''
   \<and> (case parse rc_example ''http://a.com/sub/x'' of
        Inl e \<Rightarrow> None | Inr m \<Rightarrow> m ''url'') = Some ''https://b.org''"
proof -
  have h: "'''' \<notin> set (sections (rc_cfg rc_example))"
    by (simp add: rc_example_def sections_def)
  have m: "section_matches ''http://a.com/sub/x'' ''a.com''"
    by (simp add: section_matches_def rc_example_host)
  have d: "section_dict (rc_cfg rc_example) ''a.com'' = [''api_key'' \<mapsto> ''HOST'']"
    by (simp add: section_dict_def rc_example_def)
  from parse_first_match [OF h, of "''http://a.com/sub/x''"] h m d show ?thesis
    by (simp add: rc_example_sorted) (simp add: rc_example_def)
qed

subsection \<open>The token cache\<close>

text \<open>
  What opening a file for writing can give, and where it succeeds.
\<close>

lemma write_file_result:
  "fst (write_file w p c) = Inr () \<or> fst (write_file w p c) = Inl IsADirectoryError
   \<or> fst (write_file w p c) = Inl FileNotFoundError
   \<or> fst (write_file w p c) = Inl NotADirectoryError"
  by (simp add: write_file_def split: option.splits node.splits)

lemma write_file_ok: "(fst (write_file w p c) = Inr ()) = can_write w p"
  by (simp add: write_file_def can_write_def split: option.splits node.splits)

lemma write_file_log: "length (wlog (snd (write_file w p c))) \<le> length (wlog w) + 1"
  by (simp add: write_file_def split: option.splits node.splits)

lemma write_file_failed: "fst (write_file w p c) \<noteq> Inr () \<Longrightarrow> snd (write_file w p c) = w"
  by (auto simp: write_file_def split: option.splits node.splits if_splits)

lemma map_of_sections: "k \<in> set (sections cfg) \<Longrightarrow> \<exists>d. map_of (sects cfg) k = Some d"
  by (cases "map_of (sects cfg) k") (auto simp: sections_def map_of_eq_None_iff)

lemma map_of_not_sections: "k \<notin> set (sections cfg) \<Longrightarrow> map_of (sects cfg) k = None"
  by (simp add: sections_def map_of_eq_None_iff)

lemma ensure_section_mem: "k \<in> set (sections (ensure_section cfg k))"
  by (simp add: ensure_section_def sections_def)

lemma ensure_section_defaults [simp]: "defaults (ensure_section cfg k) = defaults cfg"
  by (simp add: ensure_section_def)

lemma ensure_section_dict [simp]: "section_dict (ensure_section cfg k) s = section_dict cfg s"
  by (auto simp: ensure_section_def section_dict_def map_add_def map_of_not_sections
           split: option.splits)

lemma ensure_section_same: "k \<in> set (sections cfg) \<Longrightarrow> ensure_section cfg k = cfg"
  by (simp add: ensure_section_def)


text \<open>
  \<^verbatim>\<open>_get_domain\<close> on a cache whose parser is set: the name \<^verbatim>\<open>DEFAULT\<close> is rejected when no
  section has it, any other network location becomes a section.
\<close>

lemma get_domain_bound:
  "tc_cfg tc = Some cfg \<Longrightarrow>
   get_domain tc url =
     (if netloc (urlparse url) = default_section \<and> default_section \<notin> set (sections cfg)
      then (Inl ValueError, tc)
      else (Inr (netloc (urlparse url)),
            tc\<lparr>tc_cfg := Some (ensure_section cfg (netloc (urlparse url)))\<rparr>))"
  by (auto simp: get_domain_def add_section_def ensure_section_def Let_def)

lemma get_option_has:
  "k \<in> set (sections cfg) \<Longrightarrow> has_option cfg k opt \<Longrightarrow>
   get_option cfg k opt = Inr (the ((defaults cfg ++ section_dict cfg k) opt))
   \<and> (defaults cfg ++ section_dict cfg k) opt \<noteq> None"
  by (auto simp: has_option_def get_option_def section_dict_def map_add_def
           dest!: map_of_sections split: option.splits if_splits)

lemma get_value_bound:
  assumes "tc_cfg tc = Some cfg"
  shows "get_value tc url =
     (if netloc (urlparse url) = default_section \<and> default_section \<notin> set (sections cfg)
      then (Inl ValueError, tc)
      else (Inr (lookup_token (ensure_section cfg (netloc (urlparse url)))
                   (netloc (urlparse url))),
            tc\<lparr>tc_cfg := Some (ensure_section cfg (netloc (urlparse url)))\<rparr>))"
proof -
  let ?k = "netloc (urlparse url)"
  let ?c = "ensure_section cfg ?k"
  show ?thesis
  proof (cases "has_option ?c ?k ''token''")
    case True
    from get_option_has [OF ensure_section_mem True] True show ?thesis
      by (auto simp: get_value_def get_domain_bound [OF assms] lookup_token_def)
  next
    case False
    then show ?thesis
      by (simp add: get_value_def get_domain_bound [OF assms] lookup_token_def)
  qed
qed


text \<open>
  The outcomes of \<^verbatim>\<open>set_value\<close> on a cache whose parser is set.
\<close>

lemma set_value_bound:
  fixes url :: string and cfg :: ConfigParser
  assumes "tc_cfg tc = Some cfg"
  defines "k \<equiv> netloc (urlparse url)"
  defines "c1 \<equiv> ensure_section cfg (netloc (urlparse url))"
  shows "set_value tc w url v =
     (if k = default_section \<and> default_section \<notin> set (sections cfg)
      then (Inl ValueError, tc, w)
      else if lookup_token c1 k = v then (Inr (), tc\<lparr>tc_cfg := Some c1\<rparr>, w)
      else case (case v of None \<Rightarrow> remove_option c1 k ''token''
                 | Some x \<Rightarrow> set_option c1 k ''token'' x) of
             Inl e \<Rightarrow> (Inl e, tc\<lparr>tc_cfg := Some c1\<rparr>, w)
           | Inr cfg' \<Rightarrow>
               (case tc_filename tc of
                  None \<Rightarrow> (Inr (), tc\<lparr>tc_cfg := Some cfg'\<rparr>, w)
                | Some f \<Rightarrow>
                    if f = [] then (Inr (), tc\<lparr>tc_cfg := Some cfg'\<rparr>, w)
                    else (case write_file w f (Sectioned cfg') of
                            (Inl e, w') \<Rightarrow> (Inl e, tc\<lparr>tc_cfg := Some cfg'\<rparr>, w')
                          | (Inr u, w') \<Rightarrow> (Inr (), tc\<lparr>tc_cfg := Some cfg'\<rparr>, w'))))"
proof (cases "k = default_section \<and> default_section \<notin> set (sections cfg)")
  case True
  then show ?thesis
    by (simp add: set_value_def get_value_bound [OF assms(1)] k_def)
next
  case False
  let ?tc1 = "tc\<lparr>tc_cfg := Some c1\<rparr>"
  have mem: "k \<in> set (sections c1)"
    unfolding k_def c1_def by (rule ensure_section_mem)
  from False have gv: "get_value tc url = (Inr (lookup_token c1 k), ?tc1)"
    by (simp add: get_value_bound [OF assms(1)] k_def c1_def)
  have "tc_cfg ?tc1 = Some c1" by simp
  from get_domain_bound [OF this, of url] mem
  have gd: "get_domain ?tc1 url = (Inr k, ?tc1)"
    by (auto simp: k_def ensure_section_same)
  from False have nc: "(k = default_section \<and> default_section \<notin> set (sections cfg)) = False"
    by simp
  show ?thesis
    unfolding set_value_def gv nc
    by (simp add: gd Let_def split: sum.splits option.splits prod.splits)
qed

lemma map_of_set_section:
  "map_of (set_section n d ss) s = (if s = n then Some d else map_of ss s)"
  by (induction n d ss rule: set_section.induct) auto

lemma fst_set_section:
  "n \<in> fst ` set ss \<Longrightarrow> map fst (set_section n d ss) = map fst ss"
  by (induction n d ss rule: set_section.induct) auto

lemma section_dict_mem:
  "section_dict cfg k opt \<noteq> None \<Longrightarrow> k \<in> set (sections cfg)"
  by (force simp: section_dict_def sections_def split: option.splits dest: map_of_SomeD)

text \<open>
  The change that \<^verbatim>\<open>set_value\<close> makes to the parser, \<^verbatim>\<open>remove_option\<close> for \<^verbatim>\<open>None\<close> and \<^verbatim>\<open>set\<close>
  for a string: a rejected value changes nothing; an accepted one changes the \<^verbatim>\<open>token\<close> of
  the named section, or the default \<^verbatim>\<open>token\<close> when the name is empty or \<^verbatim>\<open>DEFAULT\<close>.
\<close>

lemma change_token:
  assumes "k \<in> set (sections c)"
  shows "(\<not> accepts_value v \<and>
            (case v of None \<Rightarrow> remove_option c k ''token''
             | Some x \<Rightarrow> set_option c k ''token'' x) = Inl ValueError)
       \<or> (accepts_value v \<and>
            (\<exists>cfg'. (case v of None \<Rightarrow> remove_option c k ''token''
                      | Some x \<Rightarrow> set_option c k ''token'' x) = Inr cfg'
               \<and> sections cfg' = sections c
               \<and> (if k = [] \<or> k = default_section
                   then defaults cfg' = (defaults c)(''token'' := v)
                        \<and> (\<forall>s. section_dict cfg' s = section_dict c s)
                   else defaults cfg' = defaults c
                        \<and> (\<forall>s. section_dict cfg' s =
                               (if s = k then (section_dict c k)(''token'' := v)
                                else section_dict c s)))))"
proof -
  from map_of_sections [OF assms] obtain d where d: "map_of (sects c) k = Some d" ..
  from assms have i: "k \<in> fst ` set (sects c)" by (simp add: sections_def)
  show ?thesis
  proof (cases v)
    case None
    with d i show ?thesis
      by (simp add: accepts_value_def remove_option_def section_dict_def sections_def
                    map_of_set_section fst_set_section)
  next
    case (Some x)
    with d i show ?thesis
      by (simp add: accepts_value_def set_option_def section_dict_def sections_def
                    map_of_set_section fst_set_section)
  qed
qed

lemma lookup_token_named:
  "k \<noteq> [] \<Longrightarrow> k \<noteq> default_section \<Longrightarrow> k \<in> set (sections cfg) \<Longrightarrow>
   lookup_token cfg k = (defaults cfg ++ section_dict cfg k) ''token''"
  by (auto simp: lookup_token_def has_option_def section_dict_def map_add_def
           dest!: map_of_sections split: option.splits)


lemma set_value_accepted:
  fixes url :: string and cfg :: ConfigParser
  assumes "tc_cfg tc = Some cfg"
    and "\<not> (netloc (urlparse url) = default_section \<and> default_section \<notin> set (sections cfg))"
  shows "set_value tc w url v =
     (if lookup_token (ensure_section cfg (netloc (urlparse url))) (netloc (urlparse url)) = v
      then (Inr (), tc\<lparr>tc_cfg := Some (ensure_section cfg (netloc (urlparse url)))\<rparr>, w)
      else case (case v of
                   None \<Rightarrow> remove_option (ensure_section cfg (netloc (urlparse url)))
                             (netloc (urlparse url)) ''token''
                 | Some x \<Rightarrow> set_option (ensure_section cfg (netloc (urlparse url)))
                             (netloc (urlparse url)) ''token'' x) of
             Inl e \<Rightarrow> (Inl e, tc\<lparr>tc_cfg := Some (ensure_section cfg (netloc (urlparse url)))\<rparr>, w)
           | Inr cfg' \<Rightarrow>
               (case tc_filename tc of
                  None \<Rightarrow> (Inr (), tc\<lparr>tc_cfg := Some cfg'\<rparr>, w)
                | Some f \<Rightarrow>
                    if f = [] then (Inr (), tc\<lparr>tc_cfg := Some cfg'\<rparr>, w)
                    else (case write_file w f (Sectioned cfg') of
                            (Inl e, w') \<Rightarrow> (Inl e, tc\<lparr>tc_cfg := Some cfg'\<rparr>, w')
                          | (Inr u, w') \<Rightarrow> (Inr (), tc\<lparr>tc_cfg := Some cfg'\<rparr>, w'))))"
proof -
  from assms(2)
  have nc: "(netloc (urlparse url) = default_section
              \<and> default_section \<notin> set (sections cfg)) = False"
    by simp
  show ?thesis
    unfolding set_value_bound [OF assms(1)] nc by simp
qed


lemma set_value_changed:
  fixes url :: string and cfg :: ConfigParser
  assumes "tc_cfg tc = Some cfg"
    and "\<not> (netloc (urlparse url) = default_section \<and> default_section \<notin> set (sections cfg))"
    and "lookup_token (ensure_section cfg (netloc (urlparse url))) (netloc (urlparse url)) \<noteq> v"
    and "(case v of None \<Rightarrow> remove_option (ensure_section cfg (netloc (urlparse url)))
                              (netloc (urlparse url)) ''token''
          | Some x \<Rightarrow> set_option (ensure_section cfg (netloc (urlparse url)))
                              (netloc (urlparse url)) ''token'' x) = Inr cfg'"
  shows "\<exists>r w'. set_value tc w url v = (r, tc\<lparr>tc_cfg := Some cfg'\<rparr>, w')
           \<and> (r = Inr () \<or> r = Inl IsADirectoryError \<or> r = Inl FileNotFoundError
                \<or> r = Inl NotADirectoryError)
           \<and> length (wlog w') \<le> length (wlog w) + 1
           \<and> ((\<forall>f. tc_filename tc = Some f \<and> f \<noteq> [] \<longrightarrow> can_write w f) \<longrightarrow> r = Inr ())"
proof (cases "\<exists>f. tc_filename tc = Some f \<and> f \<noteq> []")
  case False
  with assms(3,4) show ?thesis
    by (auto simp: set_value_accepted [OF assms(1,2)] split: option.splits)
next
  case True
  then obtain f where f: "tc_filename tc = Some f" "f \<noteq> []" by blast
  obtain r w' where wr: "write_file w f (Sectioned cfg') = (r, w')"
    by (cases "write_file w f (Sectioned cfg')")
  from assms(3,4) f wr
  have sv: "set_value tc w url v = (r, tc\<lparr>tc_cfg := Some cfg'\<rparr>, w')"
    by (cases r) (simp_all add: set_value_accepted [OF assms(1,2)])
  from write_file_result [of w f "Sectioned cfg'"] write_file_log [of w f "Sectioned cfg'"]
       write_file_ok [of w f "Sectioned cfg'"] wr f sv
  show ?thesis
    by auto
qed






text \<open>
  C4, as amended. For a URL with a non-empty network location (other than the name of the
  default section) whose section holds a token, \<^verbatim>\<open>set_value(url, None)\<close> removes the
  \<^verbatim>\<open>token\<close> key from that section, and a following \<^verbatim>\<open>get_value(url)\<close> returns the token of
  the default section if there is one and no value otherwise. An empty string is a value
  like any other: it is stored, not removed.
\<close>

theorem set_value_none_removes_token:
  fixes url :: string and cfg :: ConfigParser
  assumes "tc_cfg tc = Some cfg"
    and "netloc (urlparse url) \<noteq> []"
    and "netloc (urlparse url) \<noteq> default_section"
    and "section_dict cfg (netloc (urlparse url)) ''token'' \<noteq> None"
  shows "\<exists>r tc' w' cfg'.
           set_value tc w url None = (r, tc', w') \<and> tc_cfg tc' = Some cfg'
           \<and> section_dict cfg' (netloc (urlparse url)) ''token'' = None
           \<and> fst (get_value tc' url) = Inr (defaults cfg ''token'')"
proof -
  let ?k = "netloc (urlparse url)"
  from assms(3) have nr: "\<not> (?k = default_section \<and> default_section \<notin> set (sections cfg))"
    by simp
  from section_dict_mem [OF assms(4)] have mem: "?k \<in> set (sections cfg)" .
  then have c1: "ensure_section cfg ?k = cfg" by (rule ensure_section_same)
  from assms(4) obtain t where "section_dict cfg ?k ''token'' = Some t" by auto
  then have cur: "lookup_token cfg ?k \<noteq> None"
    by (simp add: lookup_token_named [OF assms(2,3) mem])
  from change_token [OF mem, of None] assms(2,3)
  obtain cfg' where rm: "remove_option cfg ?k ''token'' = Inr cfg'"
    and d: "defaults cfg' = defaults cfg" and s: "sections cfg' = sections cfg"
    and sd: "section_dict cfg' ?k = (section_dict cfg ?k)(''token'' := None)"
    by (auto simp: accepts_value_def)
  from set_value_changed [OF assms(1) nr, of None cfg' w] cur rm c1
  obtain r w' where sv: "set_value tc w url None = (r, tc\<lparr>tc_cfg := Some cfg'\<rparr>, w')"
    by auto
  from mem s have mem': "?k \<in> set (sections cfg')" by simp
  have "fst (get_value (tc\<lparr>tc_cfg := Some cfg'\<rparr>) url) = Inr (defaults cfg ''token'')"
    using assms(3)
    by (simp add: get_value_bound [of _ cfg'] ensure_section_same [OF mem']
                  lookup_token_named [OF assms(2,3) mem'] d sd map_add_def)
  with sv sd show ?thesis by simp
qed

theorem set_value_none_removes_token_witness:
  "tc_cfg tc_h_tok = Some cfg_h_tok
   \<and> netloc (urlparse ''http://h'') = ''h''
   \<and> section_dict cfg_h_tok ''h'' ''token'' = Some ''tok''
   \<and> fst (get_value (fst (snd (set_value tc_h_tok w_tok ''http://h'' None))) ''http://h'')
       = Inr None
   \<and> tc_section_token (fst (snd (set_value tc_h_tok w_tok ''http://h'' None))) ''h'' = None"
proof -
  have n: "netloc (urlparse ''http://h'') = ''h''"
    by (simp add: urlparse_defs)
  have a: "tc_cfg tc_h_tok = Some cfg_h_tok"
    by (simp add: tc_h_tok_def)
  have b: "section_dict cfg_h_tok ''h'' ''token'' = Some ''tok''"
    by (simp add: section_dict_def cfg_h_tok_def)
  have c: "defaults cfg_h_tok ''token'' = None"
    by (simp add: cfg_h_tok_def)
  from set_value_none_removes_token [OF a, of "''http://h''" w_tok] n b c a
  show ?thesis
    by (auto simp: default_section_def tc_section_token_def)
qed

text \<open>
  The claim as stated fails for the empty string: the host's section holds a token,
  \<^verbatim>\<open>set_value\<close> with the empty string keeps the \<^verbatim>\<open>token\<close> key, now with the empty string as its
  value, and \<^verbatim>\<open>get_value\<close> returns that empty string.
\<close>

theorem set_value_empty_string_counterexample:
  "tc_section_token tc_h_tok ''h'' = Some ''tok''
   \<and> fst (get_value tc_h_tok ''http://h'') = Inr (Some ''tok'')
   \<and> fst (set_value tc_h_tok w_tok ''http://h'' (Some '''')) = Inr ()
   \<and> tc_section_token (fst (snd (set_value tc_h_tok w_tok ''http://h'' (Some ''''))))
        ''h'' = Some ''''
   \<and> fst (get_value (fst (snd (set_value tc_h_tok w_tok ''http://h'' (Some ''''))))
        ''http://h'') = Inr (Some '''')"
  by code_simp















subsection \<open>Cookie cache, API key and configuration files\<close>



text \<open>
  C9. On a cookie cache whose jar is \<^verbatim>\<open>None\<close> (no \<^verbatim>\<open>set_filename\<close> has bound one),
  \<^verbatim>\<open>set_cookies\<close> returns normally for every list of cookies and leaves the cache and the
  environment as they were.
\<close>

theorem set_cookies_unbound_noop:
  "cookiejar cc = None \<Longrightarrow> set_cookies cc w cookies = (Inr (), cc, w)"
  by (simp add: set_cookies_def)

theorem set_cookies_unbound_noop_witness:
  "cookiejar init_CookieCache = None
   \<and> set_cookies init_CookieCache w_garbled [cookie_sid] = (Inr (), init_CookieCache, w_garbled)"
proof -
  have a: "cookiejar init_CookieCache = None"
    by (simp add: init_CookieCache_def)
  from set_cookies_unbound_noop [OF a, of w_garbled "[cookie_sid]"] a show ?thesis
    by simp
qed

lemma fold_merge_section_distinct:
  "distinct (map fst (acc @ ss)) \<Longrightarrow> fold merge_section ss acc = acc @ ss"
proof (induction ss arbitrary: acc)
  case Nil
  then show ?case by simp
next
  case (Cons nd ss)
  from Cons.prems have "fst nd \<notin> fst ` set acc" by auto
  then have "map_of acc (fst nd) = None" by (simp add: map_of_eq_None_iff)
  then have m: "merge_section nd acc = acc @ [nd]" by (simp add: merge_section_def)
  from Cons.prems have "distinct (map fst ((acc @ [nd]) @ ss))" by simp
  from Cons.IH [OF this] m show ?case by simp
qed

lemma read_into_new:
  "distinct (sections cfg) \<Longrightarrow> read_into new_ConfigParser cfg = cfg"
  using fold_merge_section_distinct [of "[]" "sects cfg"]
  by (simp add: read_into_def new_ConfigParser_def sections_def)

lemma set_option_named:
  assumes "k \<in> set (sections cfg)" and "k \<noteq> []" and "k \<noteq> default_section"
    and "accepts_value (Some v)"
  shows "\<exists>cfg'. set_option cfg k opt v = Inr cfg'
           \<and> sections cfg' = sections cfg
           \<and> defaults cfg' = defaults cfg
           \<and> (\<forall>s. section_dict cfg' s =
                  (if s = k then (section_dict cfg k)(opt \<mapsto> v) else section_dict cfg s))"
proof -
  from map_of_sections [OF assms(1)] obtain d where d: "map_of (sects cfg) k = Some d" ..
  from assms(1) have i: "k \<in> fst ` set (sects cfg)" by (simp add: sections_def)
  from assms(4) have a: "\<not> (v \<noteq> [] \<and> \<not> valid_interpolation v)"
    by (auto simp: accepts_value_def)
  from d i a assms(2,3) show ?thesis
    by (simp add: set_option_def section_dict_def sections_def
                  map_of_set_section fst_set_section)
qed

lemma ensure_section_sections:
  "set (sections (ensure_section cfg k)) = insert k (set (sections cfg))"
  by (auto simp: ensure_section_def sections_def)

lemma read_single_file:
  "nodes w f = Some (File c m) \<Longrightarrow> as_sectioned c = Some cfg \<Longrightarrow> distinct (sections cfg) \<Longrightarrow>
   read_files new_ConfigParser w [f] = Inr cfg"
  by (simp add: read_into_new)

text \<open>
  C8, as amended. When the destination (the first of \<^verbatim>\<open>configpaths\<close>, or the default location
  when that resolves to the file without a side effect) is a regular file whose content the
  parser reads as the sections \<open>cfg\<close>, the host identifier of the URL is neither empty nor
  the name of the default section, and the parser accepts the stripped key (it is empty,
  or every percent sign in it belongs to \<^verbatim>\<open>%%\<close> or to \<^verbatim>\<open>%(name)s\<close>), \<^verbatim>\<open>_save_api_key\<close> rewrites
  that file, keeping its permission bits, with sections \<open>cfg'\<close> such that: the section names
  are those of \<open>cfg\<close> and the host identifier; every key-value pair of every section other
  than \<^verbatim>\<open>api_key\<close> in the host's section is as in \<open>cfg\<close>, and so are the default values; and
  \<^verbatim>\<open>api_key\<close> of the host's section is the stripped key.
\<close>

theorem save_api_key_preserves:
  assumes "nodes w f = Some (File c m)"
    and "as_sectioned c = Some cfg"
    and "distinct (sections cfg)"
    and "configpaths = Some (f # rest)
         \<or> ((configpaths = None \<or> configpaths = Some [])
             \<and> default_config_location ''bugzillarc'' w = (Inr f, w))"
    and "parse_hostname url \<noteq> []"
    and "parse_hostname url \<noteq> default_section"
    and "accepts_value (Some (strip api_key))"
  shows "\<exists>cfg'.
           save_api_key url api_key configpaths w =
             (Inr (), w\<lparr>nodes := (nodes w)(f \<mapsto> File (Sectioned cfg') m),
                        wlog := wlog w @ [f],
                        stdout := stdout w @ [''API key written to '' @ f]\<rparr>)
           \<and> set (sections cfg') = insert (parse_hostname url) (set (sections cfg))
           \<and> (\<forall>s k. (s, k) \<noteq> (parse_hostname url, ''api_key'') \<longrightarrow>
                  section_dict cfg' s k = section_dict cfg s k)
           \<and> defaults cfg' = defaults cfg
           \<and> section_dict cfg' (parse_hostname url) ''api_key'' = Some (strip api_key)"
proof -
  let ?h = "parse_hostname url"
  let ?c1 = "ensure_section cfg ?h"
  from assms(4) have dest:
    "(case configpaths of Some (p # ps) \<Rightarrow> (Inr p, w)
      | _ \<Rightarrow> default_config_location ''bugzillarc'' w) = (Inr f, w)"
    by (auto split: option.splits list.splits)
  have rd: "read_files new_ConfigParser w [f] = Inr cfg"
    by (rule read_single_file [OF assms(1,2,3)])
  from assms(6)
  have ens: "(if ?h \<notin> set (sections cfg) then add_section cfg ?h else Inr cfg) = Inr ?c1"
    by (simp add: add_section_def ensure_section_def)
  have mem: "?h \<in> set (sections ?c1)"
    by (rule ensure_section_mem)
  from set_option_named [OF mem assms(5,6,7), where opt = "''api_key''"]
  obtain cfg' where st: "set_option ?c1 ?h ''api_key'' (strip api_key) = Inr cfg'"
    and sec: "sections cfg' = sections ?c1"
    and df: "defaults cfg' = defaults ?c1"
    and sd: "\<forall>s. section_dict cfg' s =
               (if s = ?h then (section_dict ?c1 ?h)(''api_key'' \<mapsto> strip api_key)
                else section_dict ?c1 s)"
    by blast
  have wr: "write_file w f (Sectioned cfg') =
              (Inr (), w\<lparr>nodes := (nodes w)(f \<mapsto> File (Sectioned cfg') m), wlog := wlog w @ [f]\<rparr>)"
    by (simp add: write_file_def assms(1))
  have run: "save_api_key url api_key configpaths w =
             (Inr (), w\<lparr>nodes := (nodes w)(f \<mapsto> File (Sectioned cfg') m),
                        wlog := wlog w @ [f],
                        stdout := stdout w @ [''API key written to '' @ f]\<rparr>)"
    unfolding save_api_key_def dest
    by (simp add: rd ens st wr Let_def del: read_files.simps)
  from sec have s1: "set (sections cfg') = insert ?h (set (sections cfg))"
    by (simp add: ensure_section_sections)
  from sd have s2: "\<forall>s k. (s, k) \<noteq> (?h, ''api_key'') \<longrightarrow> section_dict cfg' s k = section_dict cfg s k"
    by simp
  from df have s3: "defaults cfg' = defaults cfg"
    by simp
  from sd have s4: "section_dict cfg' ?h ''api_key'' = Some (strip api_key)"
    by simp
  from run s1 s2 s3 s4 show ?thesis by blast
qed

theorem save_api_key_preserves_witness:
  "nodes w_rc ''/home/u/.bugzillarc'' = Some (File (Sectioned cfg_rc) 384)
   \<and> as_sectioned (Sectioned cfg_rc) = Some cfg_rc
   \<and> distinct (sections cfg_rc)
   \<and> parse_hostname ''a.com'' = ''a.com''
   \<and> accepts_value (Some (strip ''  NEW  ''))
   \<and> fst (save_api_key ''a.com'' ''  NEW  '' (Some [''/home/u/.bugzillarc'']) w_rc) = Inr ()
   \<and> wlog (snd (save_api_key ''a.com'' ''  NEW  '' (Some [''/home/u/.bugzillarc'']) w_rc))
       = [''/home/u/.bugzillarc'']
   \<and> file_option (snd (save_api_key ''a.com'' ''  NEW  '' (Some [''/home/u/.bugzillarc'']) w_rc))
        ''/home/u/.bugzillarc'' ''a.com'' ''api_key'' = Some ''NEW''
   \<and> file_option (snd (save_api_key ''a.com'' ''  NEW  '' (Some [''/home/u/.bugzillarc'']) w_rc))
        ''/home/u/.bugzillarc'' ''a.com'' ''user'' = Some ''amy''
   \<and> file_option (snd (save_api_key ''a.com'' ''  NEW  '' (Some [''/home/u/.bugzillarc'']) w_rc))
        ''/home/u/.bugzillarc'' ''b.org'' ''user'' = Some ''bob''
   \<and> file_default (snd (save_api_key ''a.com'' ''  NEW  '' (Some [''/home/u/.bugzillarc'']) w_rc))
        ''/home/u/.bugzillarc'' ''url'' = Some ''https://b.org''"
proof -
  have a: "nodes w_rc ''/home/u/.bugzillarc'' = Some (File (Sectioned cfg_rc) 384)"
    by (simp add: w_rc_def)
  have b: "as_sectioned (Sectioned cfg_rc) = Some cfg_rc"
    by (simp add: as_sectioned_def)
  have c: "distinct (sections cfg_rc)"
    by (simp add: cfg_rc_def sections_def)
  have h: "parse_hostname ''a.com'' = ''a.com''"
    by (simp add: urlparse_defs)
  have s: "strip ''  NEW  '' = ''NEW''"
    by (simp add: strip_def isspace_def)
  have ac: "accepts_value (Some (strip ''  NEW  ''))"
    by code_simp
  have o: "section_dict cfg_rc ''a.com'' ''user'' = Some ''amy''"
          "section_dict cfg_rc ''b.org'' ''user'' = Some ''bob''"
          "defaults cfg_rc ''url'' = Some ''https://b.org''"
    by (simp_all add: section_dict_def cfg_rc_def)
  have hn: "parse_hostname ''a.com'' \<noteq> []" "parse_hostname ''a.com'' \<noteq> default_section"
    by (simp_all add: h default_section_def)
  from save_api_key_preserves [OF a b c _ hn ac, of "Some [''/home/u/.bugzillarc'']" "[]"]
  obtain cfg' where
    run: "save_api_key ''a.com'' ''  NEW  '' (Some [''/home/u/.bugzillarc'']) w_rc =
       (Inr (), w_rc\<lparr>nodes := (nodes w_rc)(''/home/u/.bugzillarc'' \<mapsto> File (Sectioned cfg') 384),
                  wlog := wlog w_rc @ [''/home/u/.bugzillarc''],
                  stdout := stdout w_rc @ [''API key written to '' @ ''/home/u/.bugzillarc'']\<rparr>)"
    and fr: "\<forall>s k. (s, k) \<noteq> (parse_hostname ''a.com'', ''api_key'') \<longrightarrow>
                  section_dict cfg' s k = section_dict cfg_rc s k"
    and df: "defaults cfg' = defaults cfg_rc"
    and ak: "section_dict cfg' (parse_hostname ''a.com'') ''api_key'' = Some (strip ''  NEW  '')"
    by blast
  from ak have k: "section_dict cfg' ''a.com'' ''api_key'' = Some ''NEW''"
    by (simp add: h s)
  from fr o have p: "section_dict cfg' ''a.com'' ''user'' = Some ''amy''"
          "section_dict cfg' ''b.org'' ''user'' = Some ''bob''"
    by (simp_all add: h)
  have l: "wlog w_rc = []"
    by (simp add: w_rc_def)
  from a b c h ac run k p df o(3) l show ?thesis
    by (simp add: file_option_def file_default_def file_sectioned_def as_sectioned_def)
qed

text \<open>
  The claim as stated fails for three inputs. For the empty URL the host identifier is
  empty, and the parser stores the key among the default values, not in the host's
  section. For the host identifier \<^verbatim>\<open>DEFAULT\<close> the parser refuses to add the section, and for
  a key with a lone percent sign it refuses the value: \<^verbatim>\<open>ValueError\<close> is raised and the file
  is not opened for writing.
\<close>

theorem save_api_key_default_section_counterexample:
  "parse_hostname '''' = ''''
   \<and> fst (save_api_key '''' ''KEY'' (Some [''/home/u/.bugzillarc'']) w_rc) = Inr ()
   \<and> file_default w_rc ''/home/u/.bugzillarc'' ''api_key'' = None
   \<and> file_default (snd (save_api_key '''' ''KEY'' (Some [''/home/u/.bugzillarc'']) w_rc))
        ''/home/u/.bugzillarc'' ''api_key'' = Some ''KEY''
   \<and> file_option (snd (save_api_key '''' ''KEY'' (Some [''/home/u/.bugzillarc'']) w_rc))
        ''/home/u/.bugzillarc'' '''' ''api_key'' = None
   \<and> parse_hostname ''http://DEFAULT'' = ''DEFAULT''
   \<and> fst (save_api_key ''http://DEFAULT'' ''KEY'' (Some [''/home/u/.bugzillarc'']) w_rc)
       = Inl ValueError
   \<and> wlog (snd (save_api_key ''http://DEFAULT'' ''KEY'' (Some [''/home/u/.bugzillarc'']) w_rc))
       = []
   \<and> strip ''50%'' = ''50%''
   \<and> fst (save_api_key ''a.com'' ''50%'' (Some [''/home/u/.bugzillarc'']) w_rc) = Inl ValueError
   \<and> wlog (snd (save_api_key ''a.com'' ''50%'' (Some [''/home/u/.bugzillarc'']) w_rc)) = []"
  by code_simp

lemma last_set_append:
  "last_set (xs @ ys) k = (case last_set ys k of Some v \<Rightarrow> Some v | None \<Rightarrow> last_set xs k)"
  by (induction xs) (auto split: option.splits)

lemma sd_merge_section:
  "(case map_of (merge_section nd ss) s of None \<Rightarrow> Map.empty | Some d \<Rightarrow> d) =
   (if s = fst nd
    then (case map_of ss s of None \<Rightarrow> Map.empty | Some d \<Rightarrow> d) ++ snd nd
    else (case map_of ss s of None \<Rightarrow> Map.empty | Some d \<Rightarrow> d))"
  by (cases nd) (auto simp: merge_section_def map_of_set_section split: option.splits)

lemma sd_fold_merge_section:
  "(case map_of (fold merge_section nds ss) s of None \<Rightarrow> Map.empty | Some d \<Rightarrow> d) k =
   (case last_set (map snd (filter (\<lambda>nd. fst nd = s) nds)) k of
      Some v \<Rightarrow> Some v
    | None \<Rightarrow> (case map_of ss s of None \<Rightarrow> Map.empty | Some d \<Rightarrow> d) k)"
proof (induction nds arbitrary: ss)
  case Nil
  then show ?case by simp
next
  case (Cons nd nds)
  show ?case
    by (simp add: Cons.IH sd_merge_section map_add_def split: option.splits)
qed

lemma names_set_section:
  "fst ` set (set_section n d ss) = insert n (fst ` set ss)"
  by (induction n d ss rule: set_section.induct) auto

lemma names_merge_section:
  "fst ` set (merge_section nd ss) = insert (fst nd) (fst ` set ss)"
  by (cases "map_of ss (fst nd)") (simp_all add: merge_section_def names_set_section)

lemma names_fold_merge_section:
  "fst ` set (fold merge_section nds ss) = fst ` set nds \<union> fst ` set ss"
  by (induction nds arbitrary: ss) (auto simp: names_merge_section)

lemma read_into_dict:
  "section_dict (read_into cfg fcp) s k =
     (case last_set (dicts_for s [fcp]) k of Some v \<Rightarrow> Some v | None \<Rightarrow> section_dict cfg s k)"
  by (simp add: read_into_def section_dict_def dicts_for_def sd_fold_merge_section
           cong: option.case_cong)

lemma read_into_defaults:
  "defaults (read_into cfg fcp) k =
     (case defaults fcp k of Some v \<Rightarrow> Some v | None \<Rightarrow> defaults cfg k)"
  by (simp add: read_into_def map_add_def)

lemma read_into_sections:
  "set (sections (read_into cfg fcp)) = set (sections cfg) \<union> set (sections fcp)"
  by (auto simp: read_into_def sections_def names_fold_merge_section)

lemma read_files_merged:
  "read_files cfg w ps = Inr cfg' \<Longrightarrow>
   section_dict cfg' s k =
     (case last_set (dicts_for s (file_stores w ps)) k of
        Some v \<Rightarrow> Some v | None \<Rightarrow> section_dict cfg s k)
   \<and> defaults cfg' k =
     (case last_set (map defaults (file_stores w ps)) k of
        Some v \<Rightarrow> Some v | None \<Rightarrow> defaults cfg k)
   \<and> set (sections cfg') = set (sections cfg) \<union> (\<Union>c \<in> set (file_stores w ps). set (sections c))"
proof (induction ps arbitrary: cfg)
  case Nil
  then show ?case by (simp add: dicts_for_def)
next
  case (Cons p ps)
  show ?case
  proof (cases "file_sectioned w p")
    case None
    with Cons.prems have "read_files cfg w ps = Inr cfg'"
      by (auto simp: file_sectioned_def split: option.splits node.splits)
    from Cons.IH [OF this] None show ?thesis by simp
  next
    case (Some fcp)
    with Cons.prems have "read_files (read_into cfg fcp) w ps = Inr cfg'"
      by (auto simp: file_sectioned_def split: option.splits node.splits)
    from Cons.IH [OF this] Some show ?thesis
      using last_set_append [of "dicts_for s [fcp]" "dicts_for s (file_stores w ps)" k]
      by (auto simp: read_into_dict read_into_defaults read_into_sections dicts_for_def
               split: option.splits)
  qed
qed

text \<open>
  C3, as amended. \<^verbatim>\<open>set_configpaths\<close> reads every path of the list that exists as a file, in
  the order of the list, and merges them: the value of a key in a section is the one from
  the last file in that order that sets it, the same holds for the default values, and the
  sections are those of all the files together. With the default search paths this is the
  order \<^verbatim>\<open>/etc/bugzillarc\<close>, \<^verbatim>\<open>~/.bugzillarc\<close>, \<^verbatim>\<open>~/.config/python-bugzilla/bugzillarc\<close>.
\<close>

theorem set_configpaths_merges_all:
  assumes "set_configpaths rc0 w configpaths = Inr rc"
  shows "rc_configpaths rc =
           map (expanduser w) (case configpaths of None \<Rightarrow> [] | Some ps \<Rightarrow> ps)
       \<and> section_dict (rc_cfg rc) s k =
           last_set (dicts_for s (file_stores w (rc_configpaths rc))) k
       \<and> defaults (rc_cfg rc) k = last_set (map defaults (file_stores w (rc_configpaths rc))) k
       \<and> set (sections (rc_cfg rc)) =
           (\<Union>c \<in> set (file_stores w (rc_configpaths rc)). set (sections c))"
proof -
  let ?ps = "map (expanduser w) (case configpaths of None \<Rightarrow> [] | Some ps \<Rightarrow> ps)"
  from assms obtain cfg where rd: "read_files new_ConfigParser w ?ps = Inr cfg"
    and rc: "rc = rc0\<lparr>rc_cfg := cfg, rc_configpaths := ?ps\<rparr>"
    by (auto simp: set_configpaths_def Let_def split: sum.splits)
  from read_files_merged [OF rd, of s k] rc show ?thesis
    by (simp add: new_ConfigParser_def section_dict_def sections_def split: option.splits)
qed

theorem set_configpaths_merges_all_witness:
  "set_configpaths init_RCFile w_two (Some get_default_configpaths)
     = Inr (rc_after w_two get_default_configpaths)
   \<and> section_dict (rc_cfg (rc_after w_two get_default_configpaths)) ''h'' ''api_key''
       = Some ''HOME''
   \<and> section_dict (rc_cfg (rc_after w_two get_default_configpaths)) ''h'' ''user''
       = Some ''root''"
proof -
  have "resolved w_two get_default_configpaths ''http://h'' ''api_key'' = Some ''HOME''"
    by code_simp
  then obtain rc where
    ok: "set_configpaths init_RCFile w_two (Some get_default_configpaths) = Inr rc"
    by (auto simp: resolved_def split: sum.splits)
  then have r: "rc_after w_two get_default_configpaths = rc"
    by (simp add: rc_after_def)
  have p: "rc_configpaths rc = map (expanduser w_two) get_default_configpaths"
    using set_configpaths_merges_all [OF ok] by simp
  have l1: "last_set (dicts_for ''h''
        (file_stores w_two (map (expanduser w_two) get_default_configpaths))) ''api_key''
       = Some ''HOME''"
    by code_simp
  have l2: "last_set (dicts_for ''h''
        (file_stores w_two (map (expanduser w_two) get_default_configpaths))) ''user''
       = Some ''root''"
    by code_simp
  from set_configpaths_merges_all [OF ok, of "''h''" "''api_key''"]
       set_configpaths_merges_all [OF ok, of "''h''" "''user''"] ok r p l1 l2
  show ?thesis by simp
qed

text \<open>
  The claim as stated fails when two of the default paths exist: \<^verbatim>\<open>/etc/bugzillarc\<close> is the
  first existing path and sets \<^verbatim>\<open>api_key\<close> for \<^verbatim>\<open>h\<close>, yet the resolved \<^verbatim>\<open>api_key\<close> is the one of
  \<^verbatim>\<open>~/.bugzillarc\<close>, while \<^verbatim>\<open>user\<close>, which only the first file sets, is kept: the settings come
  from both files.
\<close>

theorem first_existing_file_counterexample:
  "file_option w_two ''/etc/bugzillarc'' ''h'' ''api_key'' = Some ''ETC''
   \<and> file_option w_two (expanduser w_two ''~/.bugzillarc'') ''h'' ''api_key'' = Some ''HOME''
   \<and> file_option w_two (expanduser w_two ''~/.bugzillarc'') ''h'' ''user'' = None
   \<and> resolved w_two get_default_configpaths ''http://h'' ''api_key'' = Some ''HOME''
   \<and> resolved w_two get_default_configpaths ''http://h'' ''user'' = Some ''root''"
  by code_simp

subsection \<open>Default locations\<close>

lemma rstrip_length: "length (rstrip c s) \<le> length s"
  using length_dropWhile_le [of "\<lambda>x. x = c" "rev s"] by (simp add: rstrip_def)

lemma psplit_fst_le: "length (fst (psplit p)) \<le> length p"
  using rstrip_length [of "CHR ''/''"
          "take (length p - length (rev (takeWhile (\<lambda>x. x \<noteq> CHR ''/'') (rev p)))) p"]
  by (auto simp: psplit_def Let_def)

lemma psplit_fst_less: "snd (psplit p) \<noteq> [] \<Longrightarrow> length (fst (psplit p)) < length p"
proof -
  let ?tail = "rev (takeWhile (\<lambda>x. x \<noteq> CHR ''/'') (rev p))"
  let ?head = "take (length p - length ?tail) p"
  assume "snd (psplit p) \<noteq> []"
  then have t: "?tail \<noteq> []" by (simp add: psplit_def Let_def)
  have "length ?tail \<le> length p"
    using length_takeWhile_le [of "\<lambda>x. x \<noteq> CHR ''/''" "rev p"] by simp
  with t have h: "length ?head < length p" by (cases ?tail) auto
  with rstrip_length [of "CHR ''/''" ?head] show ?thesis
    by (auto simp: psplit_def Let_def)
qed

lemma makedirs_split_less:
  "snd (makedirs_split name) \<noteq> [] \<Longrightarrow> length (fst (makedirs_split name)) < length name"
proof (cases "snd (psplit name) = []")
  case True
  assume "snd (makedirs_split name) \<noteq> []"
  with True have "snd (psplit (fst (psplit name))) \<noteq> []"
    by (simp add: makedirs_split_def split_beta)
  from psplit_fst_less [OF this] psplit_fst_le [of name] True show ?thesis
    by (simp add: makedirs_split_def split_beta)
next
  case False
  from psplit_fst_less [OF this] False show ?thesis
    by (simp add: makedirs_split_def split_beta)
qed

lemma mkdir_effect:
  "(\<forall>e. fst (mkdir name mode w) = Inl e \<longrightarrow> e = FileExistsError)
   \<and> (\<forall>p. nodes (snd (mkdir name mode w)) p \<noteq> nodes w p \<longrightarrow>
          nodes w p = None \<and> p = name \<and> nodes (snd (mkdir name mode w)) p = Some (Dir mode))
   \<and> wlog (snd (mkdir name mode w)) = wlog w
   \<and> home (snd (mkdir name mode w)) = home w
   \<and> clock (snd (mkdir name mode w)) = clock w
   \<and> stdout (snd (mkdir name mode w)) = stdout w"
  by (auto simp: mkdir_def path_exists_def split: if_splits)

text \<open>
  What \<^verbatim>\<open>os.makedirs\<close> does to the environment: it only adds directories, at paths no
  longer than its argument, and it opens no file; the only error is \<^verbatim>\<open>FileExistsError\<close>.
\<close>

lemma makedirs_effect:
  "(\<forall>e. fst (makedirs name mode w) = Inl e \<longrightarrow> e = FileExistsError)
   \<and> (\<forall>p. nodes (snd (makedirs name mode w)) p \<noteq> nodes w p \<longrightarrow>
          nodes w p = None \<and> length p \<le> length name
          \<and> (\<exists>m. nodes (snd (makedirs name mode w)) p = Some (Dir m)))
   \<and> wlog (snd (makedirs name mode w)) = wlog w
   \<and> home (snd (makedirs name mode w)) = home w
   \<and> clock (snd (makedirs name mode w)) = clock w
   \<and> stdout (snd (makedirs name mode w)) = stdout w"
proof (induction name mode w rule: makedirs.induct)
  case (1 name mode w)
  let ?h = "fst (makedirs_split name)"
  let ?t = "snd (makedirs_split name)"
  show ?case
  proof (cases "?h \<noteq> [] \<and> ?t \<noteq> [] \<and> \<not> path_exists w ?h")
    case False
    then have eq: "makedirs name mode w = mkdir name mode w"
      by (subst makedirs.simps) auto
    from mkdir_effect [of name mode w] show ?thesis
      unfolding eq by auto
  next
    case True
    note IH = 1 [OF True]
    obtain r w1 where rec: "makedirs ?h 511 w = (r, w1)" by (cases "makedirs ?h 511 w")
    from True have less: "length ?h < length name" by (simp add: makedirs_split_less)
    from IH rec have e1: "\<forall>e. r = Inl e \<longrightarrow> e = FileExistsError"
      and f1: "\<forall>p. nodes w1 p \<noteq> nodes w p \<longrightarrow>
          nodes w p = None \<and> length p \<le> length ?h \<and> (\<exists>m. nodes w1 p = Some (Dir m))"
      and o1: "wlog w1 = wlog w" "home w1 = home w" "clock w1 = clock w" "stdout w1 = stdout w"
      by simp_all
    have eq: "makedirs name mode w =
                (if ?t = ''.'' then (Inr (), w1) else mkdir name mode w1)"
      using True rec e1
      by (subst makedirs.simps) (auto split: sum.splits)
    show ?thesis
    proof (cases "?t = ''.''")
      case dot: True
      with eq have "makedirs name mode w = (Inr (), w1)" by simp
      with f1 o1 less show ?thesis by auto
    next
      case nodot: False
      with eq have eq': "makedirs name mode w = mkdir name mode w1" by simp
      let ?w2 = "snd (mkdir name mode w1)"
      from mkdir_effect [of name mode w1]
      have e2: "\<forall>e. fst (mkdir name mode w1) = Inl e \<longrightarrow> e = FileExistsError"
        and f2: "\<forall>p. nodes ?w2 p \<noteq> nodes w1 p \<longrightarrow>
                   nodes w1 p = None \<and> p = name \<and> nodes ?w2 p = Some (Dir mode)"
        and o2: "wlog ?w2 = wlog w1" "home ?w2 = home w1" "clock ?w2 = clock w1"
                "stdout ?w2 = stdout w1"
        by simp_all
      have f: "nodes w p = None \<and> length p \<le> length name \<and> (\<exists>m. nodes ?w2 p = Some (Dir m))"
        if d: "nodes ?w2 p \<noteq> nodes w p" for p
      proof (cases "nodes ?w2 p = nodes w1 p")
        case True
        with d have "nodes w1 p \<noteq> nodes w p" by simp
        with f1 True less show ?thesis by auto
      next
        case False
        with f2 have a: "nodes w1 p = None" "p = name" "nodes ?w2 p = Some (Dir mode)"
          by auto
        from a(1) f1 have "nodes w p = None"
          by (cases "nodes w1 p = nodes w p") auto
        with a show ?thesis by simp
      qed
      from e2 f o1 o2 show ?thesis
        unfolding eq' by simp
    qed
  qed
qed

lemma makedirs_creates:
  assumes "\<not> path_exists w name" and "snd (makedirs_split name) \<noteq> ''.''"
  shows "\<exists>w'. makedirs name mode w = (Inr (), w') \<and> nodes w' name = Some (Dir mode)"
proof (cases "fst (makedirs_split name) \<noteq> [] \<and> snd (makedirs_split name) \<noteq> []
                \<and> \<not> path_exists w (fst (makedirs_split name))")
  case False
  then have "makedirs name mode w = mkdir name mode w"
    by (subst makedirs.simps) auto
  with assms(1) show ?thesis
    by (simp add: mkdir_def)
next
  case True
  let ?h = "fst (makedirs_split name)"
  obtain r w1 where rec: "makedirs ?h 511 w = (r, w1)" by (cases "makedirs ?h 511 w")
  from True have less: "length ?h < length name" by (simp add: makedirs_split_less)
  from makedirs_effect [of ?h 511 w] rec
  have e1: "\<forall>e. r = Inl e \<longrightarrow> e = FileExistsError"
    and f1: "\<forall>p. nodes w1 p \<noteq> nodes w p \<longrightarrow> length p \<le> length ?h"
    by simp_all
  have "nodes w1 name = nodes w name"
  proof (rule ccontr)
    assume "nodes w1 name \<noteq> nodes w name"
    with f1 have "length name \<le> length ?h" by blast
    with less show False by simp
  qed
  with assms(1) have free: "\<not> path_exists w1 name"
    by (simp add: path_exists_def)
  have "makedirs name mode w = mkdir name mode w1"
    using True rec e1 assms(2)
    by (subst makedirs.simps) (auto split: sum.splits)
  with free show ?thesis
    by (simp add: mkdir_def)
qed

lemma takeWhile_rev_tail:
  "CHR ''/'' \<notin> set t \<Longrightarrow>
   rev (takeWhile (\<lambda>x. x \<noteq> CHR ''/'') (rev (h @ CHR ''/'' # t))) = t"
proof -
  assume a: "CHR ''/'' \<notin> set t"
  have "takeWhile (\<lambda>x. x \<noteq> CHR ''/'') (rev t @ CHR ''/'' # rev h) = rev t"
    using a by (subst takeWhile_append2) auto
  then show ?thesis by simp
qed

lemma rstrip_slash_end: "c \<noteq> CHR ''/'' \<Longrightarrow> rstrip CHR ''/'' (h @ [c, CHR ''/'']) = h @ [c]"
  by (simp add: rstrip_def)

lemma dirname_modern:
  assumes "CHR ''/'' \<notin> set fname"
  shows "dirname (pre @ ''/python-bugzilla/'' @ fname) = pre @ ''/python-bugzilla''"
proof -
  let ?h = "pre @ ''/python-bugzilla''"
  have t: "rev (takeWhile (\<lambda>x. x \<noteq> CHR ''/'') (rev (?h @ CHR ''/'' # fname))) = fname"
    by (rule takeWhile_rev_tail [OF assms])
  have hd: "take (length (?h @ CHR ''/'' # fname) - length fname) (?h @ CHR ''/'' # fname)
              = ?h @ ''/''"
    by simp
  have ns: "?h @ ''/'' \<noteq> replicate (length (?h @ ''/'')) CHR ''/''"
  proof
    assume "?h @ ''/'' = replicate (length (?h @ ''/'')) CHR ''/''"
    then have "set (?h @ ''/'') = set (replicate (length (?h @ ''/'')) CHR ''/'')"
      by (rule arg_cong)
    moreover have "CHR ''p'' \<in> set (?h @ ''/'')" by simp
    ultimately have "CHR ''p'' \<in> set (replicate (length (?h @ ''/'')) CHR ''/'')"
      by (simp only:)
    then show False by (simp split: if_splits)
  qed
  have rs: "rstrip CHR ''/'' (?h @ ''/'') = ?h"
    using rstrip_slash_end [of "CHR ''a''" "pre @ ''/python-bugzill''"] by simp
  have "psplit (?h @ CHR ''/'' # fname) = (?h, fname)"
    unfolding psplit_def Let_def t hd using ns rs by simp
  then show ?thesis
    by (simp add: dirname_def)
qed

lemma makedirs_split_modern:
  "snd (makedirs_split (pre @ ''/python-bugzilla'')) = ''python-bugzilla''"
proof -
  have t: "rev (takeWhile (\<lambda>x. x \<noteq> CHR ''/'') (rev (pre @ CHR ''/'' # ''python-bugzilla'')))
             = ''python-bugzilla''"
    by (rule takeWhile_rev_tail) simp
  have "snd (psplit (pre @ CHR ''/'' # ''python-bugzilla'')) = ''python-bugzilla''"
    unfolding psplit_def Let_def t by simp
  then show ?thesis
    by (simp add: makedirs_split_def split_beta)
qed

lemma modern_path_eq:
  "modern_path w fname kind =
     (rstrip CHR ''/'' (home w) @ ''/.'' @ kind) @ ''/python-bugzilla/'' @ fname"
  by (simp add: modern_path_def expanduser_def Let_def)

text \<open>
  C5. \<^verbatim>\<open>_default_location\<close> returns the modern path whenever something exists there, also
  when the legacy file exists too, and changes nothing; otherwise it returns the legacy
  path when that exists, and changes nothing. When neither exists (and the file name is a
  plain name, without a slash) it returns the modern path, the parent directory of the
  modern path exists afterwards, made with the bits \<^verbatim>\<open>0o700\<close> when it was missing, the
  file itself is not made, and the only change to the environment is that directories
  were added at paths where nothing was.
\<close>

theorem default_location_resolution:
  "(path_exists w (modern_path w fname kind) \<longrightarrow>
      default_location fname kind w = (Inr (modern_path w fname kind), w))
   \<and> (\<not> path_exists w (modern_path w fname kind) \<and> path_exists w (legacy_path w fname) \<longrightarrow>
      default_location fname kind w = (Inr (legacy_path w fname), w))
   \<and> (\<not> path_exists w (modern_path w fname kind) \<and> \<not> path_exists w (legacy_path w fname)
        \<and> CHR ''/'' \<notin> set fname \<longrightarrow>
      (\<exists>w'. default_location fname kind w = (Inr (modern_path w fname kind), w')
         \<and> path_exists w' (dirname (modern_path w fname kind))
         \<and> (\<not> path_exists w (dirname (modern_path w fname kind)) \<longrightarrow>
                nodes w' (dirname (modern_path w fname kind)) = Some (Dir 448))
         \<and> \<not> path_exists w' (modern_path w fname kind)
         \<and> (\<forall>p. nodes w' p \<noteq> nodes w p \<longrightarrow>
                nodes w p = None \<and> (\<exists>m. nodes w' p = Some (Dir m)))
         \<and> wlog w' = wlog w))"
proof (intro conjI impI)
  assume "path_exists w (modern_path w fname kind)"
  then show "default_location fname kind w = (Inr (modern_path w fname kind), w)"
    by (simp add: default_location_def modern_path_def Let_def)
next
  assume "\<not> path_exists w (modern_path w fname kind) \<and> path_exists w (legacy_path w fname)"
  then show "default_location fname kind w = (Inr (legacy_path w fname), w)"
    by (simp add: default_location_def modern_path_def legacy_path_def Let_def)
next
  let ?x = "modern_path w fname kind"
  let ?d = "dirname ?x"
  assume a: "\<not> path_exists w ?x \<and> \<not> path_exists w (legacy_path w fname)
              \<and> CHR ''/'' \<notin> set fname"
  then have nf: "CHR ''/'' \<notin> set fname" by simp
  have d: "?d = (rstrip CHR ''/'' (home w) @ ''/.'' @ kind) @ ''/python-bugzilla''"
    unfolding modern_path_eq by (rule dirname_modern [OF nf])
  have len: "length ?d < length ?x"
    unfolding d by (simp add: modern_path_eq)
  show "\<exists>w'. default_location fname kind w = (Inr ?x, w')
         \<and> path_exists w' ?d
         \<and> (\<not> path_exists w ?d \<longrightarrow> nodes w' ?d = Some (Dir 448))
         \<and> \<not> path_exists w' ?x
         \<and> (\<forall>p. nodes w' p \<noteq> nodes w p \<longrightarrow>
                nodes w p = None \<and> (\<exists>m. nodes w' p = Some (Dir m)))
         \<and> wlog w' = wlog w"
  proof (cases "path_exists w ?d")
    case True
    with a have "default_location fname kind w = (Inr ?x, w)"
      by (simp add: default_location_def modern_path_def legacy_path_def Let_def)
    with True a show ?thesis by simp
  next
    case False
    have "snd (makedirs_split ?d) \<noteq> ''.''"
      unfolding d by (simp only: makedirs_split_modern) simp
    from makedirs_creates [OF False this, of 448]
    obtain w' where mk: "makedirs ?d 448 w = (Inr (), w')"
      and leaf: "nodes w' ?d = Some (Dir 448)"
      by blast
    from makedirs_effect [of ?d 448 w] mk
    have fr: "\<forall>p. nodes w' p \<noteq> nodes w p \<longrightarrow>
                 nodes w p = None \<and> length p \<le> length ?d \<and> (\<exists>m. nodes w' p = Some (Dir m))"
      and lg: "wlog w' = wlog w"
      by simp_all
    have "nodes w' ?x = nodes w ?x"
    proof (rule ccontr)
      assume "nodes w' ?x \<noteq> nodes w ?x"
      with fr have "length ?x \<le> length ?d" by blast
      with len show False by simp
    qed
    with a have nx: "\<not> path_exists w' ?x"
      by (simp add: path_exists_def)
    from a False mk have "default_location fname kind w = (Inr ?x, w')"
      by (simp add: default_location_def modern_path_def legacy_path_def Let_def)
    with leaf nx fr lg show ?thesis
      by (auto simp: path_exists_def)
  qed
qed

theorem default_location_resolution_witness:
  "path_exists w_both (modern_path w_both ''bugzillatoken'' ''cache'')
   \<and> default_cache_location ''bugzillatoken'' w_both =
       (Inr ''/home/u/.cache/python-bugzilla/bugzillatoken'', w_both)
   \<and> \<not> path_exists w_legacy (modern_path w_legacy ''bugzillatoken'' ''cache'')
   \<and> path_exists w_legacy (legacy_path w_legacy ''bugzillatoken'')
   \<and> default_cache_location ''bugzillatoken'' w_legacy =
       (Inr ''/home/u/.bugzillatoken'', w_legacy)
   \<and> \<not> path_exists w_fresh (modern_path w_fresh ''bugzillatoken'' ''cache'')
   \<and> \<not> path_exists w_fresh (legacy_path w_fresh ''bugzillatoken'')
   \<and> CHR ''/'' \<notin> set ''bugzillatoken''
   \<and> fst (default_cache_location ''bugzillatoken'' w_fresh) =
       Inr ''/home/u/.cache/python-bugzilla/bugzillatoken''
   \<and> nodes (snd (default_cache_location ''bugzillatoken'' w_fresh))
         ''/home/u/.cache/python-bugzilla'' = Some (Dir 448)
   \<and> nodes (snd (default_cache_location ''bugzillatoken'' w_fresh))
         ''/home/u/.cache/python-bugzilla/bugzillatoken'' = None"
proof -
  have m: "modern_path w ''bugzillatoken'' ''cache'' =
             rstrip CHR ''/'' (home w) @ ''/.cache/python-bugzilla/bugzillatoken''" for w
    by (simp add: modern_path_eq)
  have l: "legacy_path w ''bugzillatoken'' = rstrip CHR ''/'' (home w) @ ''/.bugzillatoken''" for w
    by (simp add: legacy_path_def expanduser_def Let_def)
  have h: "rstrip CHR ''/'' ''/home/u'' = ''/home/u''"
    by (simp add: rstrip_def)
  have mb: "modern_path w_both ''bugzillatoken'' ''cache'' =
              ''/home/u/.cache/python-bugzilla/bugzillatoken''"
    and ml: "modern_path w_legacy ''bugzillatoken'' ''cache'' =
              ''/home/u/.cache/python-bugzilla/bugzillatoken''"
    and mf: "modern_path w_fresh ''bugzillatoken'' ''cache'' =
              ''/home/u/.cache/python-bugzilla/bugzillatoken''"
    and ll: "legacy_path w_legacy ''bugzillatoken'' = ''/home/u/.bugzillatoken''"
    and lf: "legacy_path w_fresh ''bugzillatoken'' = ''/home/u/.bugzillatoken''"
    by (simp_all add: m l h w_both_def w_legacy_def w_fresh_def)
  have dn: "dirname ''/home/u/.cache/python-bugzilla/bugzillatoken'' =
              ''/home/u/.cache/python-bugzilla''"
    using dirname_modern [of "''bugzillatoken''" "''/home/u/.cache''"] by simp
  have b1: "path_exists w_both (modern_path w_both ''bugzillatoken'' ''cache'')"
    unfolding mb by (simp add: path_exists_def w_both_def)
  have l1: "\<not> path_exists w_legacy (modern_path w_legacy ''bugzillatoken'' ''cache'')"
    unfolding ml by (simp add: path_exists_def w_legacy_def)
  have l2: "path_exists w_legacy (legacy_path w_legacy ''bugzillatoken'')"
    unfolding ll by (simp add: path_exists_def w_legacy_def)
  have f1: "\<not> path_exists w_fresh (modern_path w_fresh ''bugzillatoken'' ''cache'')"
    unfolding mf by (simp add: path_exists_def w_fresh_def)
  have f2: "\<not> path_exists w_fresh (legacy_path w_fresh ''bugzillatoken'')"
    unfolding lf by (simp add: path_exists_def w_fresh_def)
  have f3: "CHR ''/'' \<notin> set ''bugzillatoken''"
    by simp
  have f4: "\<not> path_exists w_fresh ''/home/u/.cache/python-bugzilla''"
    by (simp add: path_exists_def w_fresh_def)
  from default_location_resolution [of w_both "''bugzillatoken''" "''cache''"] b1
  have rb: "default_cache_location ''bugzillatoken'' w_both =
       (Inr ''/home/u/.cache/python-bugzilla/bugzillatoken'', w_both)"
    by (simp add: default_cache_location_def mb)
  from default_location_resolution [of w_legacy "''bugzillatoken''" "''cache''"] l1 l2
  have rl: "default_cache_location ''bugzillatoken'' w_legacy =
       (Inr ''/home/u/.bugzillatoken'', w_legacy)"
    by (simp add: default_cache_location_def ll)
  from default_location_resolution [of w_fresh "''bugzillatoken''" "''cache''"] f1 f2 f3
  obtain w' where
    r: "default_location ''bugzillatoken'' ''cache'' w_fresh =
          (Inr (modern_path w_fresh ''bugzillatoken'' ''cache''), w')"
    and c: "\<not> path_exists w_fresh (dirname (modern_path w_fresh ''bugzillatoken'' ''cache'')) \<longrightarrow>
              nodes w' (dirname (modern_path w_fresh ''bugzillatoken'' ''cache'')) = Some (Dir 448)"
    and n: "\<not> path_exists w' (modern_path w_fresh ''bugzillatoken'' ''cache'')"
    by blast
  from r c n f4 have rf:
    "fst (default_cache_location ''bugzillatoken'' w_fresh) =
       Inr ''/home/u/.cache/python-bugzilla/bugzillatoken''
     \<and> nodes (snd (default_cache_location ''bugzillatoken'' w_fresh))
         ''/home/u/.cache/python-bugzilla'' = Some (Dir 448)
     \<and> nodes (snd (default_cache_location ''bugzillatoken'' w_fresh))
         ''/home/u/.cache/python-bugzilla/bugzillatoken'' = None"
    by (simp add: default_cache_location_def mf dn path_exists_def)
  from b1 rb l1 l2 rl f1 f2 f3 rf show ?thesis
    by blast
qed

end
